theory Spec2Isabelle
  imports Main
begin

section \<open>The object binding registry of \<open>jsb::Environment\<close>\<close>

text \<open>
  The model follows \<open>src/bridge/jsb_environment.cpp\<close> in a \<open>JSB_DEBUG\<close> build, where the
  \<open>jsb_check\<close> family of macros is active: a failed check ends the run, which the model
  returns as \<open>Inl\<close> of the check that failed. Calls made on the script engine and on the
  host are recorded, in order, in the \<open>trace\<close> of the environment, and so are the lines
  written with \<open>JSB_LOG\<close>: those of \<open>bind_pointer\<close>, \<open>reference_object\<close> and \<open>free_object\<close>,
  and elsewhere those of the levels Error, Warning and Fatal.

  Host addresses (\<open>void*\<close>), script objects, class ids and thread ids are natural numbers.
  The id \<open>0\<close> is the empty \<open>NativeObjectID\<close> (\<open>return {}\<close>). A member named with a
  trailing underscore in the source (\<open>objects_\<close>, \<open>ref_count_\<close>) is written without it.
\<close>

type_synonym pointer = nat
type_synonym js_object = nat
type_synonym NativeClassID = nat
type_synonym ScriptClassID = nat
type_synonym NativeObjectID = nat
type_synonym thread = nat

datatype NativeClassType = NoneType | GodotObject | GodotPrimitive

record NativeClassInfo =
  name :: string
  type :: NativeClassType

datatype EBindingPolicy = External | Managed

text \<open>
  A \<open>v8::Global<v8::Object>\<close>: empty, or holding a script object strongly or weakly.
\<close>

datatype Global = Empty | Strong js_object | Weak js_object

fun IsEmpty :: "Global \<Rightarrow> bool" where
  "IsEmpty Empty = True"
| "IsEmpty (Strong obj) = False"
| "IsEmpty (Weak obj) = False"

fun SetWeak :: "Global \<Rightarrow> Global" where
  "SetWeak Empty = Empty"
| "SetWeak (Strong obj) = Weak obj"
| "SetWeak (Weak obj) = Weak obj"

fun ClearWeak :: "Global \<Rightarrow> Global" where
  "ClearWeak Empty = Empty"
| "ClearWeak (Strong obj) = Strong obj"
| "ClearWeak (Weak obj) = Strong obj"

text \<open>
  \<open>ObjectHandle\<close>. Its declaration is not among the source files; the fields are the ones
  the functions below read and write. \<open>ref_count\<close> is a counter of a fixed width that the
  declaration would tell: the width \<open>w\<close>, of at least one bit, is a parameter of the functions
  that count, the counter holds a number below \<open>2 ^ w\<close>, and \<open>++\<close> on it wraps around. The only
  decrement is guarded by \<open>ref_count > 0\<close>.
\<close>

record ObjectHandle =
  class_id :: NativeClassID
  pointer :: pointer
  ref :: Global
  ref_count :: nat

definition new_ObjectHandle :: ObjectHandle where
  "new_ObjectHandle = \<lparr>class_id = 0, pointer = 0, ref = Empty, ref_count = 0\<rparr>"

text \<open>
  Modelled from the spec: \<open>internal::SArray\<close>, the id-to-handle table, is not among the source
  files. \<open>add\<close> stores a value under an id that is not in use and returns the id, which is
  never the empty id; the model hands out the ids \<open>1, 2, ...\<close> in turn. An index is valid
  when a value is stored under it, and \<open>size\<close> is the number of values stored.
\<close>

record 'a SArray =
  slots :: "nat \<rightharpoonup> 'a"
  next_id :: nat

definition new_SArray :: "'a SArray" where
  "new_SArray = \<lparr>slots = Map.empty, next_id = 1\<rparr>"

definition sarray_add :: "'a SArray \<Rightarrow> 'a \<Rightarrow> nat \<times> 'a SArray" where
  "sarray_add a v = (next_id a, \<lparr>slots = (slots a)(next_id a \<mapsto> v), next_id = Suc (next_id a)\<rparr>)"

definition sarray_set :: "'a SArray \<Rightarrow> nat \<Rightarrow> 'a \<Rightarrow> 'a SArray" where
  "sarray_set a i v = a\<lparr>slots := (slots a)(i \<mapsto> v)\<rparr>"

definition sarray_remove :: "'a SArray \<Rightarrow> nat \<Rightarrow> 'a SArray" where
  "sarray_remove a i = a\<lparr>slots := (slots a)(i := None)\<rparr>"

definition sarray_size :: "'a SArray \<Rightarrow> nat" where
  "sarray_size a = card (dom (slots a))"

definition index_size :: "('k \<rightharpoonup> 'v) \<Rightarrow> nat" where
  "index_size m = card (dom m)"

subsection \<open>Script values, host values, exceptions\<close>

text \<open>
  The script engine is a collaborator: the model keeps of a script value what the functions
  below ask of it (\<open>IsObject\<close>, \<open>IsPromise\<close>, \<open>IsNullOrUndefined\<close>), and of a host
  \<open>Variant\<close> that the empty one, \<open>Variant()\<close>, is \<open>NIL\<close>. Functions and promises are objects.
\<close>

datatype Symbols = ClassImplicitReadyFuncs | CrossBind | CDO

datatype JSValue =
    JSUndefined
  | JSNull
  | JSBoolean bool
  | JSNumber int
  | JSString string
  | JSSymbol Symbols
  | JSObject js_object
  | JSFunction js_object
  | JSPromise js_object

fun IsObject :: "JSValue \<Rightarrow> bool" where
  "IsObject (JSObject obj) = True"
| "IsObject (JSFunction obj) = True"
| "IsObject (JSPromise obj) = True"
| "IsObject v = False"

fun IsPromise :: "JSValue \<Rightarrow> bool" where
  "IsPromise (JSPromise obj) = True"
| "IsPromise v = False"

fun IsNullOrUndefined :: "JSValue \<Rightarrow> bool" where
  "IsNullOrUndefined JSUndefined = True"
| "IsNullOrUndefined JSNull = True"
| "IsNullOrUndefined v = False"

fun As_Object :: "JSValue \<Rightarrow> js_object option" where
  "As_Object (JSObject obj) = Some obj"
| "As_Object (JSFunction obj) = Some obj"
| "As_Object (JSPromise obj) = Some obj"
| "As_Object v = None"

datatype Variant = NIL | BOOL bool | INTEGER int | STRING string | OBJECT pointer

text \<open>
  \<open>Callable::CallError::Error\<close> of the host. These files name \<open>CALL_ERROR_INVALID_METHOD\<close>
  only; the other values are the host's.
\<close>

datatype CallError =
    CALL_OK
  | CALL_ERROR_INVALID_METHOD
  | CALL_ERROR_INVALID_ARGUMENT
  | CALL_ERROR_TOO_MANY_ARGUMENTS
  | CALL_ERROR_TOO_FEW_ARGUMENTS
  | CALL_ERROR_INSTANCE_IS_NULL
  | CALL_ERROR_METHOD_NOT_CONST

text \<open>
  A thrown script value, as \<open>TryCatch::get_message\<close> reads it: the properties \<open>fileName\<close>
  and \<open>lineNumber\<close> may be null or undefined (\<open>None\<close>).
\<close>

record JSException =
  fileName :: "string option"
  lineNumber :: "string option"
  message :: string
  stack :: string

subsection \<open>Modules and script classes\<close>

record ModuleSourceInfo =
  source_filepath :: string

text \<open>
  \<open>JavaScriptModule\<close>; its declaration is not among the source files. A module is known by
  the key it has in the module cache, which is what the model returns for a
  \<open>JavaScriptModule*\<close>. Its field \<open>id\<close> is written \<open>module_id\<close>. \<open>children\<close> is \<open>None\<close> when
  the \<open>children\<close> property of the module object is not an array.
\<close>

record JavaScriptModule =
  module_id :: string
  source_info :: ModuleSourceInfo
  loaded :: bool
  reload_requested :: bool
  script_class_id :: ScriptClassID
  children :: "string list option"

text \<open>
  A module loader (\<open>IModuleLoader::load\<close>) and a module resolver (\<open>IModuleResolver\<close>) are
  collaborators. A load that fails has thrown (\<open>Inl\<close> of what it threw); one that
  succeeds has filled in the module.
\<close>

type_synonym IModuleLoader = "JavaScriptModule \<Rightarrow> JSException + JavaScriptModule"

record IModuleResolver =
  get_source_info :: "string \<Rightarrow> ModuleSourceInfo option"
  load :: "string \<Rightarrow> JavaScriptModule \<Rightarrow> JSException + JavaScriptModule"

record ScriptClassInfo =
  js_class_name :: string
  native_class_name :: string
  native_class_id :: NativeClassID
  js_class :: JSValue

text \<open>What the registry does that is visible outside it, in the order it happens.\<close>

datatype event =
    SetAlignedPointerInInternalField js_object "pointer option"
  | GlobalSetWeak pointer
  | GlobalClearWeak pointer
  | GlobalReset js_object
  | CallFinalizer NativeClassID pointer bool
  | LogBadPointer pointer
  | LogBindObject NativeClassID pointer NativeObjectID
  | LogFreeObject NativeClassID pointer NativeObjectID
  | LogSkipFreeObject NativeClassID pointer NativeObjectID
  | LogMarkPersistentFailed
  | LocalConstructed nat
  | LocalDestroyed nat
  | FunctionCall JSValue "JSValue list"
  | CallAsConstructor JSValue "JSValue list"
  | SetPrototype js_object JSValue
  | InitRef pointer
  | GetInstanceBinding pointer
  | LoaderLoad string
  | ResolverGetSourceInfo nat string
  | ResolverLoad nat string
  | Throw string
  | LogQuickJSError string
  | LogError string
  | LogWarning string
  | LogFatal string

datatype error =
    MultiThreadedCall
  | BadClassId
  | DuplicatedBindings
  | ValueTypeObject
  | InvalidIndex
  | EmptyHandle
  | RemovingReferencesOnDeadValues
  | RefCountIsZero
  | PointerMismatch
  | DuplicatePersistent
  | OutOfFuel
  | NullException
  | EmptyMaybeLocal
  | NullOrUndefinedClass
  | PrototypeIsNotAnObject
  | ModuleLoaderDoesNotSupportReloading
  | ModuleIdMismatch

record Environment =
  thread_id :: thread
  native_classes :: "NativeClassID \<rightharpoonup> NativeClassInfo"
  objects :: "ObjectHandle SArray"
  objects_index :: "pointer \<rightharpoonup> NativeObjectID"
  persistent_objects :: "pointer set"
  script_classes :: "ScriptClassID \<rightharpoonup> ScriptClassInfo"
  module_cache :: "string \<rightharpoonup> JavaScriptModule"
  module_loaders :: "string \<rightharpoonup> IModuleLoader"
  module_resolvers :: "IModuleResolver list"
  exception_slot :: "JSException option"
  trace :: "event list"

text \<open>
  \<open>exception_slot\<close> is the exception pending in the isolate (\<open>StackPos::Exception\<close> of the
  QuickJS isolate, which \<open>TryCatch\<close> reads).

  The registry of a freshly constructed Environment: no object is bound. Native classes are
  registered by code outside these files, so the class table is a parameter.
\<close>

definition new_Environment :: "thread \<Rightarrow> (NativeClassID \<rightharpoonup> NativeClassInfo) \<Rightarrow> Environment" where
  "new_Environment tid classes =
     \<lparr>thread_id = tid, native_classes = classes, objects = new_SArray,
      objects_index = Map.empty, persistent_objects = {}, script_classes = Map.empty,
      module_cache = Map.empty, module_loaders = Map.empty, module_resolvers = [],
      exception_slot = None, trace = []\<rparr>"

definition emit :: "event list \<Rightarrow> Environment \<Rightarrow> Environment" where
  "emit es env = env\<lparr>trace := trace env @ es\<rparr>"

subsection \<open>\<open>Environment::bind_pointer\<close>\<close>

definition bind_pointer ::
  "thread \<Rightarrow> Environment \<Rightarrow> NativeClassID \<Rightarrow> pointer \<Rightarrow> js_object \<Rightarrow> EBindingPolicy
     \<Rightarrow> error + NativeObjectID \<times> Environment" where
  "bind_pointer caller env p_class_id p_pointer p_object p_policy =
     (if caller \<noteq> thread_id env then Inl MultiThreadedCall
      else case native_classes env p_class_id of
        None \<Rightarrow> Inl BadClassId
      | Some class_info \<Rightarrow>
          if objects_index env p_pointer \<noteq> None then Inl DuplicatedBindings
          else
            let (object_id, added) = sarray_add (objects env) new_ObjectHandle;
                handle = new_ObjectHandle\<lparr>class_id := p_class_id, pointer := p_pointer\<rparr>
            in if type class_info = GodotPrimitive then Inl ValueTypeObject
               else
                 let handle = handle\<lparr>ref := Strong p_object\<rparr>;
                     (handle, weak) =
                       (if p_policy = Managed then (handle\<lparr>ref := SetWeak (ref handle)\<rparr>, [GlobalSetWeak p_pointer])
                        else (handle\<lparr>ref_count := 1\<rparr>, []))
                 in Inr (object_id,
                      emit ([SetAlignedPointerInInternalField p_object (Some p_pointer)] @ weak
                            @ [LogBindObject p_class_id p_pointer object_id])
                        (env\<lparr>objects := sarray_set added object_id handle,
                             objects_index := (objects_index env)(p_pointer \<mapsto> object_id)\<rparr>)))"

subsection \<open>\<open>Environment::reference_object\<close>\<close>

definition reference_object ::
  "nat \<Rightarrow> thread \<Rightarrow> Environment \<Rightarrow> pointer \<Rightarrow> bool \<Rightarrow> error + bool \<times> Environment" where
  "reference_object w caller env p_pointer p_is_inc =
     (if caller \<noteq> thread_id env then Inl MultiThreadedCall
      else case objects_index env p_pointer of
        None \<Rightarrow> Inr (True, emit [LogBadPointer p_pointer] env)
      | Some object_id \<Rightarrow>
          (case slots (objects env) object_id of
            None \<Rightarrow> Inl InvalidIndex
          | Some object_handle \<Rightarrow>
              (case native_classes env (class_id object_handle) of
                None \<Rightarrow> Inl InvalidIndex
              | Some class_info \<Rightarrow>
                  if type class_info = GodotPrimitive then Inl ValueTypeObject
                  else if p_is_inc then
                    (if ref_count object_handle = 0 then
                       (if IsEmpty (ref object_handle) then Inl EmptyHandle
                        else Inr (False,
                          emit [GlobalClearWeak p_pointer]
                            (env\<lparr>objects := sarray_set (objects env) object_id
                               (object_handle\<lparr>ref := ClearWeak (ref object_handle),
                                  ref_count := (ref_count object_handle + 1) mod 2 ^ w\<rparr>)\<rparr>)))
                     else Inr (False,
                       env\<lparr>objects := sarray_set (objects env) object_id
                         (object_handle\<lparr>ref_count := (ref_count object_handle + 1) mod 2 ^ w\<rparr>)\<rparr>))
                  else if IsEmpty (ref object_handle) then Inl RemovingReferencesOnDeadValues
                  else if \<not> ref_count object_handle > 0 then Inl RefCountIsZero
                  else
                    let object_handle = object_handle\<lparr>ref_count := ref_count object_handle - 1\<rparr>
                    in if ref_count object_handle = 0 then
                         Inr (False,
                           emit [GlobalSetWeak p_pointer]
                             (env\<lparr>objects := sarray_set (objects env) object_id
                                (object_handle\<lparr>ref := SetWeak (ref object_handle)\<rparr>)\<rparr>))
                       else Inr (False,
                         env\<lparr>objects := sarray_set (objects env) object_id object_handle\<rparr>))))"

subsection \<open>\<open>Environment::mark_as_persistent_object\<close>\<close>

definition mark_as_persistent_object :: "nat \<Rightarrow> thread \<Rightarrow> Environment \<Rightarrow> pointer \<Rightarrow> error + Environment" where
  "mark_as_persistent_object w caller env p_pointer =
     (case objects_index env p_pointer of
        Some object_id \<Rightarrow>
          if p_pointer \<in> persistent_objects env then Inl DuplicatePersistent
          else (case reference_object w caller env p_pointer True of
                  Inl e \<Rightarrow> Inl e
                | Inr (r, env') \<Rightarrow>
                    Inr (env'\<lparr>persistent_objects := insert p_pointer (persistent_objects env')\<rparr>))
      | None \<Rightarrow> Inr (emit [LogMarkPersistentFailed] env))"

subsection \<open>\<open>Environment::free_object\<close>\<close>

text \<open>
  The operations a caller, or a class finalizer running inside \<open>free_object\<close>, can make on
  the registry.
\<close>

datatype registry_op =
    Bind NativeClassID pointer js_object EBindingPolicy
  | Reference pointer bool
  | Free pointer bool

text \<open>
  The class finalizer (\<open>NativeClassInfo::finalizer\<close>) is a callback of the class, given the
  Environment, the address and the persistence flag. What it does to the host object is
  outside the registry; what it does to the registry it does by calling back into it, for
  instance through \<open>free_callback\<close> when the host object it deletes drops its instance
  binding. The finalizers are therefore a parameter: for a class, an address, the flag and
  the Environment they are called with, the registry operations they make, in order.
\<close>

type_synonym finalizers = "NativeClassID \<Rightarrow> pointer \<Rightarrow> bool \<Rightarrow> Environment \<Rightarrow> registry_op list"

text \<open>
  What \<open>free_object\<close> does to a bound pointer before the finalizer runs: the pointer leaves
  \<open>persistent_objects\<close> and \<open>objects_index\<close>, the internal field of the script object is
  cleared when no finalization is asked for, the handle leaves \<open>objects\<close> and its reference
  is reset; then the line of the log, and with \<open>p_finalize\<close> the call of the finalizer.
  \<open>clear_internal_field\<close> reads the script object through the handle, so that without
  finalization an empty handle ends the run (\<open>EmptyHandle\<close> in \<open>free_object\<close> below).
\<close>

fun Get :: "Global \<Rightarrow> js_object option" where
  "Get Empty = None"
| "Get (Strong obj) = Some obj"
| "Get (Weak obj) = Some obj"

definition unlink_object ::
  "Environment \<Rightarrow> pointer \<Rightarrow> NativeObjectID \<Rightarrow> ObjectHandle \<Rightarrow> bool \<Rightarrow> Environment" where
  "unlink_object env p_pointer object_id object_handle p_finalize =
     emit ((case Get (ref object_handle) of
              Some obj \<Rightarrow> if \<not> p_finalize then [SetAlignedPointerInInternalField obj None] else []
            | None \<Rightarrow> [])
           @ [GlobalReset p_pointer]
           @ (if p_finalize then
                [LogFreeObject (class_id object_handle) p_pointer object_id,
                 CallFinalizer (class_id object_handle) p_pointer (p_pointer \<in> persistent_objects env)]
              else [LogSkipFreeObject (class_id object_handle) p_pointer object_id]))
       (env\<lparr>persistent_objects := persistent_objects env - {p_pointer},
            objects_index := (objects_index env)(p_pointer := None),
            objects := sarray_remove (objects env) object_id\<rparr>)"

text \<open>
  \<open>free_object\<close> calls the finalizer, which may call \<open>free_object\<close> again, to any depth.
  The argument \<open>fuel\<close> bounds the depth of finalizers running inside finalizers; a run that
  needs more ends with \<open>OutOfFuel\<close>. \<open>run_ops\<close> makes a sequence of registry operations.
\<close>

fun free_object ::
  "nat \<Rightarrow> nat \<Rightarrow> finalizers \<Rightarrow> thread \<Rightarrow> Environment \<Rightarrow> pointer \<Rightarrow> bool \<Rightarrow> error + Environment"
and run_ops ::
  "nat \<Rightarrow> nat \<Rightarrow> finalizers \<Rightarrow> thread \<Rightarrow> registry_op list \<Rightarrow> Environment \<Rightarrow> error + Environment"
where
  "free_object w fuel fz caller env p_pointer p_finalize =
     (if caller \<noteq> thread_id env then Inl MultiThreadedCall
      else case objects_index env p_pointer of
        None \<Rightarrow> Inr env
      | Some object_id \<Rightarrow>
          (case slots (objects env) object_id of
            None \<Rightarrow> Inl InvalidIndex
          | Some object_handle \<Rightarrow>
              if pointer object_handle \<noteq> p_pointer then Inl PointerMismatch
              else if \<not> p_finalize \<and> IsEmpty (ref object_handle) then Inl EmptyHandle
              else
                (case native_classes env (class_id object_handle) of
                  None \<Rightarrow> Inl InvalidIndex
                | Some class_info \<Rightarrow>
                    if p_finalize then
                      (case fuel of
                        0 \<Rightarrow> Inl OutOfFuel
                      | Suc n \<Rightarrow>
                          run_ops w n fz caller
                            (fz (class_id object_handle) p_pointer (p_pointer \<in> persistent_objects env)
                               (unlink_object env p_pointer object_id object_handle p_finalize))
                            (unlink_object env p_pointer object_id object_handle p_finalize))
                    else Inr (unlink_object env p_pointer object_id object_handle p_finalize))))"
| "run_ops w fuel fz caller [] env = Inr env"
| "run_ops w fuel fz caller (Bind c p obj policy # ops) env =
     (case bind_pointer caller env c p obj policy of
        Inl e \<Rightarrow> Inl e
      | Inr (object_id, env') \<Rightarrow> run_ops w fuel fz caller ops env')"
| "run_ops w fuel fz caller (Reference p is_inc # ops) env =
     (case reference_object w caller env p is_inc of
        Inl e \<Rightarrow> Inl e
      | Inr (r, env') \<Rightarrow> run_ops w fuel fz caller ops env')"
| "run_ops w fuel fz caller (Free p finalize # ops) env =
     (case free_object w fuel fz caller env p finalize of
        Inl e \<Rightarrow> Inl e
      | Inr env' \<Rightarrow> run_ops w fuel fz caller ops env')"

subsection \<open>Reading the trace\<close>

text \<open>
  \<open>bind_pointer\<close> writes a line to the log when it has bound an address, and
  \<open>free_object\<close> writes one when it has unbound one. \<open>bound_after B es\<close> is the set of
  addresses bound after the events \<open>es\<close>, when \<open>B\<close> were bound before them, and
  \<open>no_double_bind B es\<close> says that no address is bound by \<open>es\<close> while it is bound.
\<close>

fun bound_after :: "pointer set \<Rightarrow> event list \<Rightarrow> pointer set" where
  "bound_after B [] = B"
| "bound_after B (LogBindObject c p i # es) = bound_after (insert p B) es"
| "bound_after B (LogFreeObject c p i # es) = bound_after (B - {p}) es"
| "bound_after B (LogSkipFreeObject c p i # es) = bound_after (B - {p}) es"
| "bound_after B (e # es) = bound_after B es"

fun no_double_bind :: "pointer set \<Rightarrow> event list \<Rightarrow> bool" where
  "no_double_bind B [] = True"
| "no_double_bind B (LogBindObject c p i # es) = (p \<notin> B \<and> no_double_bind (insert p B) es)"
| "no_double_bind B (LogFreeObject c p i # es) = no_double_bind (B - {p}) es"
| "no_double_bind B (LogSkipFreeObject c p i # es) = no_double_bind (B - {p}) es"
| "no_double_bind B (e # es) = no_double_bind B es"

text \<open>
  The invariant of the registry: \<open>objects_index\<close> is a one-to-one correspondence between the
  bound addresses and the ids in use, every id in use was handed out, and the log tells
  which addresses are bound.
\<close>

definition registry_inv :: "Environment \<Rightarrow> bool" where
  "registry_inv env =
     ((\<forall>p i. objects_index env p = Some i \<longrightarrow> slots (objects env) i \<noteq> None)
      \<and> (\<forall>p q i. objects_index env p = Some i \<and> objects_index env q = Some i \<longrightarrow> p = q)
      \<and> (\<forall>i. slots (objects env) i \<noteq> None \<longrightarrow> (\<exists>p. objects_index env p = Some i))
      \<and> (\<forall>i. slots (objects env) i \<noteq> None \<longrightarrow> i < next_id (objects env))
      \<and> bound_after {} (trace env) = dom (objects_index env)
      \<and> no_double_bind {} (trace env))"

section \<open>The call bridge\<close>

subsection \<open>\<open>impl::TryCatch\<close> (QuickJS)\<close>

text \<open>
  Modelled from the spec: \<open>Isolate::try_catch\<close>, which \<open>TryCatch::has_caught\<close> returns, is
  not among the source files. The scoped capture has caught when an exception is pending in
  the isolate.
\<close>

definition has_caught :: "Environment \<Rightarrow> bool" where
  "has_caught env = (exception_slot env \<noteq> None)"

text \<open>
  \<open>TryCatch::get_message\<close>: reads the pending exception, writes it to the log, hands out
  its message and stack, and resets the pending exception.
\<close>

definition format_exception :: "JSException \<Rightarrow> string" where
  "format_exception ex =
     (let filename = (case fileName ex of None \<Rightarrow> ''native'' | Some f \<Rightarrow> f);
          line = (case lineNumber ex of None \<Rightarrow> [] | Some l \<Rightarrow> l)
      in ''['' @ filename @ '':'' @ line @ ''] '' @ message ex
           @ [CHR 0x0A] @ ''Javascript stack:'' @ [CHR 0x0A] @ stack ex)"

definition get_message :: "Environment \<Rightarrow> error + (string \<times> string) \<times> Environment" where
  "get_message env =
     (case exception_slot env of
        None \<Rightarrow> Inl NullException
      | Some ex \<Rightarrow>
          Inr ((message ex, stack ex),
               (emit [LogQuickJSError (format_exception ex)] env)\<lparr>exception_slot := None\<rparr>))"

text \<open>
  Modelled from the spec: \<open>BridgeHelper::get_exception\<close> is not among the source files. It
  formats the exception the \<open>TryCatch\<close> holds: the message, and the stack when there is one.
\<close>

definition get_exception :: "Environment \<Rightarrow> error + string \<times> Environment" where
  "get_exception env =
     (case get_message env of
        Inl e \<Rightarrow> Inl e
      | Inr ((msg, stacktrace), env') \<Rightarrow>
          Inr (if stacktrace = [] then msg else msg @ [CHR 0x0A] @ stacktrace, env'))"

text \<open>The text \<open>get_exception\<close> hands out for an exception that is pending.\<close>

definition exception_text :: "JSException \<Rightarrow> string" where
  "exception_text ex = (if stack ex = [] then message ex else message ex @ [CHR 0x0A] @ stack ex)"

text \<open>
  What the engine does with a pending exception when a call into script returns: a thrown
  value becomes the pending exception.
\<close>

definition raise_thrown :: "JSException option \<Rightarrow> Environment \<Rightarrow> Environment" where
  "raise_thrown thrown env =
     (case thrown of None \<Rightarrow> env | Some ex \<Rightarrow> env\<lparr>exception_slot := Some ex\<rparr>)"

subsection \<open>\<open>Environment::_call\<close>\<close>

text \<open>
  A script function is what it returns (a \<open>MaybeLocal\<close>) and what it throws, for a receiver
  and arguments. \<open>TypeConvert::gd_var_to_js\<close> and \<open>TypeConvert::js_to_gd_var\<close> are not among
  the source files and are parameters; \<open>None\<close> is a failed conversion.
\<close>

type_synonym js_function = "JSValue \<Rightarrow> JSValue list \<Rightarrow> JSValue option \<times> JSException option"

text \<open>
  The first loop of \<open>_call\<close>, from argument \<open>index\<close> on: each \<open>argv[index]\<close> is constructed
  and then converted into; at the first conversion that fails, \<open>argv[index]\<close> down to
  \<open>argv[0]\<close> are destroyed.
\<close>

fun convert_arguments ::
  "(Variant \<Rightarrow> JSValue option) \<Rightarrow> Variant list \<Rightarrow> nat \<Rightarrow> JSValue list \<Rightarrow> event list
     \<Rightarrow> JSValue list option \<times> event list" where
  "convert_arguments gd_var_to_js [] index argv es = (Some argv, es)"
| "convert_arguments gd_var_to_js (arg # args) index argv es =
     (case gd_var_to_js arg of
        None \<Rightarrow> (None, es @ [LocalConstructed index] @ map LocalDestroyed (rev [0..<Suc index]))
      | Some v \<Rightarrow>
          convert_arguments gd_var_to_js args (Suc index) (argv @ [v]) (es @ [LocalConstructed index]))"

text \<open>
  \<open>_call\<close> (written \<open>call\<close>; a name cannot begin with an underscore). \<open>r_error\<close> is the
  \<open>error\<close> field of the caller's \<open>Callable::CallError\<close>, returned as the function leaves it.
\<close>

definition call ::
  "(Variant \<Rightarrow> JSValue option) \<Rightarrow> (JSValue \<Rightarrow> Variant option) \<Rightarrow> Environment \<Rightarrow> js_function
     \<Rightarrow> JSValue \<Rightarrow> Variant list \<Rightarrow> CallError \<Rightarrow> error + Variant \<times> CallError \<times> Environment" where
  "call gd_var_to_js js_to_gd_var env p_func p_self p_args r_error =
     (case convert_arguments gd_var_to_js p_args 0 [] [] of
        (None, es) \<Rightarrow> Inr (NIL, CALL_ERROR_INVALID_METHOD, emit es env)
      | (Some argv, es) \<Rightarrow>
          let (rval, thrown) = p_func p_self argv;
              env = raise_thrown thrown (emit (es @ [FunctionCall p_self argv]) env);
              env = emit (map LocalDestroyed [0..<length p_args]) env
          in if has_caught env then
               (case get_exception env of
                  Inl e \<Rightarrow> Inl e
                | Inr (text, env) \<Rightarrow>
                    Inr (NIL, CALL_ERROR_INVALID_METHOD,
                         emit [LogError (''exception thrown in function:'' @ [CHR 0x0A] @ text)] env))
             else
               (case rval of
                  None \<Rightarrow> Inr (NIL, r_error, env)
                | Some rval_checked \<Rightarrow>
                    (case js_to_gd_var rval_checked of
                       None \<Rightarrow>
                         if \<not> IsPromise rval_checked then
                           Inr (NIL, CALL_ERROR_INVALID_METHOD,
                                emit [LogError ''failed to translate returned value''] env)
                         else Inr (NIL, r_error, env)
                     | Some rvar \<Rightarrow> Inr (rvar, r_error, env))))"

section \<open>Loading modules\<close>

text \<open>
  \<open>internal::PathUtil\<close> and \<open>ScriptClassInfo::_parse_script_class\<close> are not among the source
  files and are parameters: \<open>extract_path\<close> (\<open>PathUtil::extract\<close>) gives the normalized path
  when it returns \<open>OK\<close>, and \<open>parse_script_class\<close> gives the module as it leaves it and what
  it threw.
\<close>

record Helpers =
  combine :: "string \<Rightarrow> string \<Rightarrow> string"
  dirname :: "string \<Rightarrow> string"
  extract_path :: "string \<Rightarrow> string option"
  parse_script_class :: "JavaScriptModule \<Rightarrow> JavaScriptModule \<times> JSException option"

text \<open>
  Modelled from the spec: \<open>JavaScriptModule::is_loaded\<close>, \<open>JavaScriptModule::on_load\<close> and
  \<open>JavaScriptModuleCache::insert\<close> are not among the source files. A module is loaded when it
  has been loaded and no reload of it is requested; \<open>on_load\<close> marks it loaded; \<open>insert\<close> puts
  a new module, not loaded, in the cache under its id.
\<close>

definition is_loaded :: "JavaScriptModule \<Rightarrow> bool" where
  "is_loaded m = (loaded m \<and> \<not> reload_requested m)"

definition on_load :: "JavaScriptModule \<Rightarrow> JavaScriptModule" where
  "on_load m = m\<lparr>loaded := True\<rparr>"

definition new_module :: "string \<Rightarrow> JavaScriptModule" where
  "new_module i =
     \<lparr>module_id = i, source_info = \<lparr>source_filepath = []\<rparr>, loaded = False,
      reload_requested = False, script_class_id = 0, children = None\<rparr>"

definition cache_insert :: "string \<Rightarrow> JavaScriptModule \<Rightarrow> Environment \<Rightarrow> Environment" where
  "cache_insert i m env = env\<lparr>module_cache := (module_cache env)(i \<mapsto> m)\<rparr>"

text \<open>\<open>existing_module && existing_module->is_loaded()\<close>, for the module the cache has under an id.\<close>

definition existing_loaded :: "Environment \<Rightarrow> string \<Rightarrow> bool" where
  "existing_loaded env i = (case module_cache env i of None \<Rightarrow> False | Some m \<Rightarrow> is_loaded m)"

text \<open>
  Modelled from the spec: \<open>find_module_loader\<close> and \<open>find_module_resolver\<close> are declared in a
  header that is not among the source files. The loader is the one registered under the
  name; the resolvers are asked in order for the source of the id, and the first that
  knows it wins.
\<close>

definition find_module_loader :: "Environment \<Rightarrow> string \<Rightarrow> IModuleLoader option" where
  "find_module_loader env i = module_loaders env i"

fun find_module_resolver ::
  "IModuleResolver list \<Rightarrow> nat \<Rightarrow> string \<Rightarrow> event list
     \<Rightarrow> (nat \<times> IModuleResolver \<times> ModuleSourceInfo) option \<times> event list" where
  "find_module_resolver [] k i es = (None, es)"
| "find_module_resolver (r # rs) k i es =
     (case get_source_info r i of
        Some info \<Rightarrow> (Some (k, r, info), es @ [ResolverGetSourceInfo k i])
      | None \<Rightarrow> find_module_resolver rs (Suc k) i (es @ [ResolverGetSourceInfo k i]))"

text \<open>\<open>jsb_throw\<close> and \<open>impl::Helper::throw_error\<close>: an error with the message becomes pending.\<close>

definition throw_error :: "string \<Rightarrow> Environment \<Rightarrow> Environment" where
  "throw_error msg env =
     (emit [Throw msg] env)
       \<lparr>exception_slot := Some \<lparr>fileName = None, lineNumber = None, message = msg, stack = []\<rparr>\<rparr>"

text \<open>The id to resolve: a relative id is combined with the directory of the parent.\<close>

definition normalized_id :: "Helpers \<Rightarrow> string \<Rightarrow> string \<Rightarrow> string option" where
  "normalized_id util p_parent_id p_module_id =
     (if take 2 p_module_id = ''./'' \<or> take 3 p_module_id = ''../'' then
        (case extract_path util (combine util (dirname util p_parent_id) p_module_id) of
           None \<Rightarrow> None
         | Some normalized \<Rightarrow> if normalized = [] then None else Some normalized)
      else Some p_module_id)"

text \<open>The branch of \<open>_load_module\<close> for a module the cache has, which is not loaded: a reload.\<close>

definition reload_module ::
  "Helpers \<Rightarrow> Environment \<Rightarrow> nat \<Rightarrow> IModuleResolver \<Rightarrow> ModuleSourceInfo \<Rightarrow> JavaScriptModule
     \<Rightarrow> error + string option \<times> Environment" where
  "reload_module util env k resolver info existing_module =
     (if module_id existing_module \<noteq> source_filepath info then Inl ModuleIdMismatch
      else if source_filepath (source_info existing_module) \<noteq> source_filepath info then Inl ModuleIdMismatch
      else
        let existing_module = existing_module\<lparr>reload_requested := False\<rparr>;
            env = emit [ResolverLoad k (source_filepath info)]
                    (cache_insert (source_filepath info) existing_module env)
        in case load resolver (source_filepath info) existing_module of
             Inl ex \<Rightarrow> Inr (None, raise_thrown (Some ex) env)
           | Inr m \<Rightarrow>
               let (m, thrown) = parse_script_class util m
               in Inr (Some (source_filepath info),
                       raise_thrown thrown (cache_insert (source_filepath info) m env)))"

text \<open>The branch for a module the cache does not have.\<close>

definition append_child :: "string \<Rightarrow> string \<Rightarrow> Environment \<Rightarrow> Environment" where
  "append_child p_parent_id child env =
     (if p_parent_id = [] then env
      else case module_cache env p_parent_id of
        Some parent \<Rightarrow>
          (case children parent of
             Some cs \<Rightarrow> cache_insert p_parent_id (parent\<lparr>children := Some (cs @ [child])\<rparr>) env
           | None \<Rightarrow> emit [LogError (''can not access children on '' @ p_parent_id)] env)
      | None \<Rightarrow> emit [LogWarning (''parent module not found with the name '' @ p_parent_id)] env)"

definition instantiate_module ::
  "Helpers \<Rightarrow> Environment \<Rightarrow> string \<Rightarrow> nat \<Rightarrow> IModuleResolver \<Rightarrow> ModuleSourceInfo
     \<Rightarrow> error + string option \<times> Environment" where
  "instantiate_module util env p_parent_id k resolver info =
     (let i = source_filepath info;
          module = (new_module i)\<lparr>children := Some [], source_info := info\<rparr>;
          env = emit [ResolverLoad k i] (cache_insert i module env)
      in case load resolver i module of
           Inl ex \<Rightarrow> Inr (None, raise_thrown (Some ex) env)
         | Inr m \<Rightarrow>
             let env = append_child p_parent_id i (cache_insert i m env);
                 m = (case module_cache env i of Some m' \<Rightarrow> on_load m' | None \<Rightarrow> on_load m);
                 (m, thrown) = parse_script_class util m;
                 env = raise_thrown thrown (cache_insert i m env)
             in if has_caught env then
                  (case get_exception env of
                     Inl e \<Rightarrow> Inl e
                   | Inr (text, env) \<Rightarrow>
                       Inr (Some i, emit [LogError (''something wrong when parsing '' @ i @ [CHR 0x0A] @ text)] env))
                else Inr (Some i, env))"

subsection \<open>\<open>Environment::_load_module\<close>\<close>

text \<open>
  \<open>_load_module\<close> (written \<open>load_module\<close>). The result is the key of the module it returns,
  or \<open>None\<close> for \<open>nullptr\<close>.
\<close>

definition load_module ::
  "Helpers \<Rightarrow> Environment \<Rightarrow> string \<Rightarrow> string \<Rightarrow> error + string option \<times> Environment" where
  "load_module util env p_parent_id p_module_id =
     (if existing_loaded env p_module_id then Inr (Some p_module_id, env)
      else case find_module_loader env p_module_id of
        Some loader \<Rightarrow>
          if module_cache env p_module_id \<noteq> None then Inl ModuleLoaderDoesNotSupportReloading
          else
            let env = emit [LoaderLoad p_module_id] (cache_insert p_module_id (new_module p_module_id) env)
            in (case loader (new_module p_module_id) of
                  Inl ex \<Rightarrow> Inr (None, raise_thrown (Some ex) env)
                | Inr m \<Rightarrow> Inr (Some p_module_id, cache_insert p_module_id (on_load m) env))
      | None \<Rightarrow>
          (case normalized_id util p_parent_id p_module_id of
             None \<Rightarrow> Inr (None, throw_error ''bad path'' env)
           | Some normalized \<Rightarrow>
               (case find_module_resolver (module_resolvers env) 0 normalized [] of
                  (None, es) \<Rightarrow> Inr (None, throw_error (''unknown module: '' @ normalized) (emit es env))
                | (Some (k, resolver, info), es) \<Rightarrow>
                    let env = emit es env
                    in if existing_loaded env (source_filepath info) then
                         Inr (Some (source_filepath info), env)
                       else
                         (case module_cache env (source_filepath info) of
                            Some existing_module \<Rightarrow> reload_module util env k resolver info existing_module
                          | None \<Rightarrow> instantiate_module util env p_parent_id k resolver info))))"

section \<open>Cross-binding\<close>

text \<open>
  A host \<open>Object\<close>: its address, whether it is reference counted, and what \<open>init_ref\<close>
  answers for it (false for an object that is already dead). The host is a collaborator.
\<close>

record HostObject =
  address :: pointer
  is_ref_counted :: bool
  init_ref :: bool

text \<open>
  What the engine answers: \<open>CallAsConstructor\<close> on a class with arguments (a \<open>MaybeLocal\<close>
  and what was thrown), the \<open>prototype\<close> property of a class, and \<open>SetPrototype\<close> on an
  object (\<open>None\<close> for \<open>Nothing\<close>, and what was thrown).
\<close>

record Engine =
  construct :: "JSValue \<Rightarrow> JSValue list \<Rightarrow> JSValue option \<times> JSException option"
  get_prototype :: "JSValue \<Rightarrow> JSValue option"
  set_prototype :: "js_object \<Rightarrow> JSValue \<Rightarrow> bool option \<times> JSException option"

text \<open>
  Modelled from the spec: \<open>get_object_id\<close> and \<open>try_get_object\<close> are declared in a header
  that is not among the source files. The first gives the id the address is bound to, or
  the empty id; the second gives the script object of the handle the address is bound to.
\<close>

definition get_object_id :: "Environment \<Rightarrow> pointer \<Rightarrow> NativeObjectID" where
  "get_object_id env p = (case objects_index env p of None \<Rightarrow> 0 | Some i \<Rightarrow> i)"

definition try_get_object :: "Environment \<Rightarrow> pointer \<Rightarrow> js_object option" where
  "try_get_object env p =
     (case objects_index env p of
        None \<Rightarrow> None
      | Some i \<Rightarrow> (case slots (objects env) i of None \<Rightarrow> None | Some h \<Rightarrow> Get (ref h)))"

subsection \<open>\<open>Environment::bind_godot_object\<close>\<close>

definition bind_godot_object ::
  "thread \<Rightarrow> Environment \<Rightarrow> NativeClassID \<Rightarrow> HostObject \<Rightarrow> js_object
     \<Rightarrow> error + NativeObjectID \<times> Environment" where
  "bind_godot_object caller env p_class_id p_pointer p_object =
     (if is_ref_counted p_pointer \<and> \<not> init_ref p_pointer then
        Inr (0, emit [InitRef (address p_pointer), LogError ''can not bind a dead object''] env)
      else
        case bind_pointer caller
               (emit (if is_ref_counted p_pointer then [InitRef (address p_pointer)] else []) env)
               p_class_id (address p_pointer) p_object External of
          Inl e \<Rightarrow> Inl e
        | Inr (object_id, env') \<Rightarrow> Inr (object_id, emit [GetInstanceBinding (address p_pointer)] env'))"

subsection \<open>\<open>Environment::_rebind\<close>\<close>

text \<open>\<open>_rebind\<close> (written \<open>rebind\<close>, which in the source is its public wrapper).\<close>

definition rebind :: "Engine \<Rightarrow> Environment \<Rightarrow> HostObject \<Rightarrow> ScriptClassID \<Rightarrow> error + Environment" where
  "rebind eng env p_this p_class_id =
     (case try_get_object env (address p_this) of
        None \<Rightarrow> Inr (emit [LogFatal ''bad instance''] env)
      | Some instance \<Rightarrow>
          (case script_classes env p_class_id of
             None \<Rightarrow> Inl InvalidIndex
           | Some class_info \<Rightarrow>
               (case get_prototype eng (js_class class_info) of
                  None \<Rightarrow> Inl EmptyMaybeLocal
                | Some prototype \<Rightarrow>
                    if \<not> IsObject prototype then Inl PrototypeIsNotAnObject
                    else
                      let (r, thrown) = set_prototype eng instance prototype;
                          env = raise_thrown thrown (emit [SetPrototype instance prototype] env)
                      in if r = None \<and> has_caught env then
                           (case get_exception env of
                              Inl e \<Rightarrow> Inl e
                            | Inr (text, env) \<Rightarrow>
                                Inr (emit [LogWarning (''something wrong'' @ [CHR 0x0A] @ text)] env))
                         else Inr env)))"

subsection \<open>\<open>Environment::crossbind\<close>\<close>

text \<open>
  Modelled from the spec: \<open>check_internal_state\<close> is declared in a header that is not among
  the source files; it is the check that the caller is the owning thread.
\<close>

definition crossbind ::
  "Engine \<Rightarrow> thread \<Rightarrow> Environment \<Rightarrow> HostObject \<Rightarrow> ScriptClassID
     \<Rightarrow> error + NativeObjectID \<times> Environment" where
  "crossbind eng caller env p_this p_class_id =
     (if caller \<noteq> thread_id env then Inl MultiThreadedCall
      else if get_object_id env (address p_this) \<noteq> 0 then
        (case rebind eng env p_this p_class_id of
           Inl e \<Rightarrow> Inl e
         | Inr env' \<Rightarrow> Inr (get_object_id env (address p_this), env'))
      else
        case script_classes env p_class_id of
          None \<Rightarrow> Inl InvalidIndex
        | Some class_info \<Rightarrow>
            if IsNullOrUndefined (js_class class_info) then Inl NullOrUndefinedClass
            else
              let (constructed_value, thrown) = construct eng (js_class class_info) [JSSymbol CrossBind];
                  env = raise_thrown thrown
                          (emit [CallAsConstructor (js_class class_info) [JSSymbol CrossBind]] env)
              in if has_caught env then
                   (case get_exception env of
                      Inl e \<Rightarrow> Inl e
                    | Inr (text, env) \<Rightarrow>
                        Inr (0, emit [LogError (''something wrong when constructing ''
                                        @ js_class_name class_info @ [CHR 0x0A] @ text)] env))
                 else
                   (case constructed_value of
                      None \<Rightarrow> Inl EmptyMaybeLocal
                    | Some instance \<Rightarrow>
                        (case As_Object instance of
                           None \<Rightarrow> Inr (0, emit [LogError (''bad instance '' @ js_class_name class_info)] env)
                         | Some obj \<Rightarrow>
                             bind_godot_object caller env (native_class_id class_info) p_this obj)))"

section \<open>Example inputs\<close>

text \<open>
  One class of host objects; a finalizer that deletes the host object, whose instance
  binding then calls \<open>free_callback\<close>, that is \<open>free_object\<close> without finalization, on the
  same address; and a run that binds an address, references it, frees it and binds it again.
\<close>

definition ex_classes :: "NativeClassID \<rightharpoonup> NativeClassInfo" where
  "ex_classes = [1 \<mapsto> \<lparr>name = ''Node'', type = GodotObject\<rparr>]"

definition ex_finalizers :: finalizers where
  "ex_finalizers c p persistent env = [Free p False]"

definition ex_ops :: "registry_op list" where
  "ex_ops = [Bind 1 100 7 External, Reference 100 True, Reference 100 False, Reference 100 False,
             Free 100 True, Bind 1 100 8 Managed]"

definition ex_handle :: "Global \<Rightarrow> nat \<Rightarrow> ObjectHandle" where
  "ex_handle r n = \<lparr>class_id = 1, pointer = 100, ref = r, ref_count = n\<rparr>"

definition ex_bound :: "Global \<Rightarrow> nat \<Rightarrow> Environment" where
  "ex_bound r n =
     (new_Environment 0 ex_classes)
       \<lparr>objects := \<lparr>slots = [1 \<mapsto> ex_handle r n], next_id = 2\<rparr>, objects_index := [100 \<mapsto> 1]\<rparr>"

text \<open>
  Conversions that fail on a host object (\<open>gd_var_to_js\<close>) and on a symbol or a promise
  (\<open>js_to_gd_var\<close>); a function that throws, one that returns a promise, one that returns a
  symbol.
\<close>

fun ex_gd_var_to_js :: "Variant \<Rightarrow> JSValue option" where
  "ex_gd_var_to_js NIL = Some JSUndefined"
| "ex_gd_var_to_js (BOOL b) = Some (JSBoolean b)"
| "ex_gd_var_to_js (INTEGER n) = Some (JSNumber n)"
| "ex_gd_var_to_js (STRING str) = Some (JSString str)"
| "ex_gd_var_to_js (OBJECT p) = None"

fun ex_js_to_gd_var :: "JSValue \<Rightarrow> Variant option" where
  "ex_js_to_gd_var JSUndefined = Some NIL"
| "ex_js_to_gd_var JSNull = Some NIL"
| "ex_js_to_gd_var (JSBoolean b) = Some (BOOL b)"
| "ex_js_to_gd_var (JSNumber n) = Some (INTEGER n)"
| "ex_js_to_gd_var (JSString str) = Some (STRING str)"
| "ex_js_to_gd_var v = None"

definition ex_exception :: JSException where
  "ex_exception = \<lparr>fileName = None, lineNumber = None, message = ''boom'', stack = ''at f''\<rparr>"

definition ex_throwing :: js_function where
  "ex_throwing self args = (None, Some ex_exception)"

definition ex_async :: js_function where
  "ex_async self args = (Some (JSPromise 3), None)"

definition ex_symbolic :: js_function where
  "ex_symbolic self args = (Some (JSSymbol CDO), None)"

text \<open>
  A module cache that holds the loaded module \<open>res://a.js\<close>, and a resolver that knows the
  id \<open>a\<close> as that file.
\<close>

definition ex_module :: JavaScriptModule where
  "ex_module =
     \<lparr>module_id = ''res://a.js'', source_info = \<lparr>source_filepath = ''res://a.js''\<rparr>, loaded = True,
      reload_requested = False, script_class_id = 0, children = Some []\<rparr>"

definition ex_resolver :: IModuleResolver where
  "ex_resolver =
     \<lparr>get_source_info = (\<lambda>i. if i = ''a'' then Some \<lparr>source_filepath = ''res://a.js''\<rparr> else None),
      load = (\<lambda>path m. Inr m)\<rparr>"

definition ex_helpers :: Helpers where
  "ex_helpers = \<lparr>combine = (\<lambda>a b. a @ ''/'' @ b), dirname = (\<lambda>a. a), extract_path = Some,
                 parse_script_class = (\<lambda>m. (m, None))\<rparr>"

definition ex_modules :: Environment where
  "ex_modules =
     (new_Environment 0 ex_classes)
       \<lparr>module_cache := [''res://a.js'' \<mapsto> ex_module], module_resolvers := [ex_resolver]\<rparr>"

text \<open>The events that are a load by a module loader or by a module resolver.\<close>

fun is_load_call :: "event \<Rightarrow> bool" where
  "is_load_call (LoaderLoad i) = True"
| "is_load_call (ResolverLoad k i) = True"
| "is_load_call e = False"

text \<open>
  A script class \<open>Foo\<close> on the native class 1, an engine whose constructor returns the
  object 9, a host object that is not reference counted and one that is and is dead.
\<close>

definition ex_script_class :: ScriptClassInfo where
  "ex_script_class =
     \<lparr>js_class_name = ''Foo'', native_class_name = ''Node'', native_class_id = 1, js_class = JSFunction 50\<rparr>"

definition ex_engine :: Engine where
  "ex_engine =
     \<lparr>construct = (\<lambda>c args. (Some (JSObject 9), None)),
      get_prototype = (\<lambda>c. Some (JSObject 51)),
      set_prototype = (\<lambda>obj proto. (Some True, None))\<rparr>"

definition ex_scripted :: "Environment \<Rightarrow> Environment" where
  "ex_scripted env = env\<lparr>script_classes := [1 \<mapsto> ex_script_class]\<rparr>"

definition ex_dead :: HostObject where
  "ex_dead = \<lparr>address = 100, is_ref_counted = True, init_ref = False\<rparr>"

definition ex_node :: HostObject where
  "ex_node = \<lparr>address = 100, is_ref_counted = False, init_ref = False\<rparr>"

section \<open>Properties of the registry\<close>

text \<open>
  \<open>free_object\<close> is unfolded by hand: its equation holds for all arguments.
\<close>

declare free_object.simps [simp del]

lemma bound_after_append: "bound_after B (es @ es') = bound_after (bound_after B es) es'"
  by (induction B es rule: bound_after.induct) auto

lemma no_double_bind_append:
  "no_double_bind B (es @ es') = (no_double_bind B es \<and> no_double_bind (bound_after B es) es')"
  by (induction B es rule: no_double_bind.induct) auto

lemma new_Environment_inv: "registry_inv (new_Environment tid classes)"
  by (simp add: registry_inv_def new_Environment_def new_SArray_def)

lemma bind_pointer_Inr:
  assumes "bind_pointer caller env c p obj pol = Inr (i, env')"
  shows "objects_index env p = None" and "i = next_id (objects env)"
    and "objects_index env' = (objects_index env)(p \<mapsto> i)"
    and "\<exists>h. slots (objects env') = (slots (objects env))(i \<mapsto> h)"
    and "next_id (objects env') = Suc i"
    and "bound_after B (trace env') = insert p (bound_after B (trace env))"
    and "no_double_bind B (trace env') = (no_double_bind B (trace env) \<and> p \<notin> bound_after B (trace env))"
  using assms
  unfolding bind_pointer_def sarray_add_def sarray_set_def emit_def Let_def
  by (auto split: if_splits option.splits simp: bound_after_append no_double_bind_append)

lemma bind_pointer_inv:
  assumes inv: "registry_inv env" and b: "bind_pointer caller env c p obj pol = Inr (i, env')"
  shows "registry_inv env'"
proof -
  note f = bind_pointer_Inr [OF b]
  from f(4) obtain h where s: "slots (objects env') = (slots (objects env))(i \<mapsto> h)" by blast
  have fresh: "slots (objects env) i = None"
    using inv f(2) unfolding registry_inv_def by (metis less_irrefl)
  have notin: "\<And>q. objects_index env q \<noteq> Some i"
    using inv fresh unfolding registry_inv_def by blast
  have 1: "\<forall>q j. objects_index env' q = Some j \<longrightarrow> slots (objects env') j \<noteq> None"
    using inv unfolding registry_inv_def f(3) s by auto
  have 2: "\<forall>q r j. objects_index env' q = Some j \<and> objects_index env' r = Some j \<longrightarrow> q = r"
    using inv notin unfolding registry_inv_def f(3) by (auto split: if_splits)
  have 3: "\<forall>j. slots (objects env') j \<noteq> None \<longrightarrow> (\<exists>q. objects_index env' q = Some j)"
  proof (intro allI impI)
    fix j assume "slots (objects env') j \<noteq> None"
    show "\<exists>q. objects_index env' q = Some j"
    proof (cases "j = i")
      case True thus ?thesis unfolding f(3) by auto
    next
      case False
      hence "slots (objects env) j \<noteq> None" using \<open>slots (objects env') j \<noteq> None\<close> s by auto
      then obtain q where q: "objects_index env q = Some j" using inv unfolding registry_inv_def by blast
      hence "q \<noteq> p" using f(1) by auto
      thus ?thesis unfolding f(3) using q by auto
    qed
  qed
  have 4: "\<forall>j. slots (objects env') j \<noteq> None \<longrightarrow> j < next_id (objects env')"
    using inv f(2) unfolding registry_inv_def f(5) s by (auto simp: less_Suc_eq)
  have 5: "bound_after {} (trace env') = dom (objects_index env')"
    using inv unfolding registry_inv_def f(6) f(3) by auto
  have 6: "no_double_bind {} (trace env')"
    using inv f(1) unfolding registry_inv_def f(7) by auto
  show ?thesis unfolding registry_inv_def using 1 2 3 4 5 6 by blast
qed


lemma reference_object_Inr:
  assumes "reference_object w caller env p inc = Inr (r, env')"
  shows "objects_index env' = objects_index env"
    and "dom (slots (objects env')) = dom (slots (objects env))"
    and "next_id (objects env') = next_id (objects env)"
    and "bound_after B (trace env') = bound_after B (trace env)"
    and "no_double_bind B (trace env') = no_double_bind B (trace env)"
  using assms
  unfolding reference_object_def sarray_set_def emit_def Let_def
  by (auto split: if_splits option.splits simp: bound_after_append no_double_bind_append)

lemma reference_object_inv:
  assumes inv: "registry_inv env" and b: "reference_object w caller env p inc = Inr (r, env')"
  shows "registry_inv env'"
proof -
  note f = reference_object_Inr [OF b]
  have d: "\<And>j. (slots (objects env') j \<noteq> None) = (slots (objects env) j \<noteq> None)"
    using f(2) by (metis domIff)
  show ?thesis using inv unfolding registry_inv_def f(1) f(3) f(4) f(5) d by simp
qed

lemma unlink_object_eqs:
  shows "objects_index (unlink_object env p i h fin) = (objects_index env)(p := None)"
    and "slots (objects (unlink_object env p i h fin)) = (slots (objects env))(i := None)"
    and "next_id (objects (unlink_object env p i h fin)) = next_id (objects env)"
    and "bound_after B (trace (unlink_object env p i h fin)) = bound_after B (trace env) - {p}"
    and "no_double_bind B (trace (unlink_object env p i h fin)) = no_double_bind B (trace env)"
  unfolding unlink_object_def sarray_remove_def emit_def
  by (auto split: option.splits simp: bound_after_append no_double_bind_append)

lemma unlink_object_inv:
  assumes inv: "registry_inv env" and b: "objects_index env p = Some i"
  shows "registry_inv (unlink_object env p i h fin)"
proof -
  note f = unlink_object_eqs [where env=env and p=p and i=i and h=h and fin=fin]
  have 2: "\<And>q r j. objects_index env q = Some j \<Longrightarrow> objects_index env r = Some j \<Longrightarrow> q = r"
    using inv unfolding registry_inv_def by blast
  have 3: "\<And>j. slots (objects env) j \<noteq> None \<Longrightarrow> \<exists>q. objects_index env q = Some j"
    using inv unfolding registry_inv_def by blast
  have a: "\<forall>q j. ((objects_index env)(p := None)) q = Some j \<longrightarrow> ((slots (objects env))(i := None)) j \<noteq> None"
    using inv 2 b unfolding registry_inv_def by (auto split: if_splits)
  have c: "\<forall>j. ((slots (objects env))(i := None)) j \<noteq> None \<longrightarrow> (\<exists>q. ((objects_index env)(p := None)) q = Some j)"
  proof (intro allI impI)
    fix j assume "((slots (objects env))(i := None)) j \<noteq> None"
    hence ji: "j \<noteq> i" and "slots (objects env) j \<noteq> None" by (auto split: if_splits)
    then obtain q where q: "objects_index env q = Some j" using 3 by blast
    hence "q \<noteq> p" using b ji by auto
    thus "\<exists>q. ((objects_index env)(p := None)) q = Some j" using q by auto
  qed
  show ?thesis using inv a c 2 unfolding registry_inv_def f
    by (auto split: if_splits)
qed

lemma registry_inv_sizes:
  assumes "registry_inv env"
  shows "index_size (objects_index env) = sarray_size (objects env)"
proof -
  have 1: "\<And>p i. objects_index env p = Some i \<Longrightarrow> slots (objects env) i \<noteq> None"
   and 2: "\<And>q r j. objects_index env q = Some j \<Longrightarrow> objects_index env r = Some j \<Longrightarrow> q = r"
   and 3: "\<And>j. slots (objects env) j \<noteq> None \<Longrightarrow> \<exists>q. objects_index env q = Some j"
    using assms unfolding registry_inv_def by blast+
  have "inj_on (\<lambda>p. the (objects_index env p)) (dom (objects_index env))"
    by (rule inj_onI) (auto dest: 2)
  moreover have "(\<lambda>p. the (objects_index env p)) ` dom (objects_index env) = dom (slots (objects env))"
  proof (intro equalityI subsetI)
    fix j assume "j \<in> (\<lambda>p. the (objects_index env p)) ` dom (objects_index env)"
    thus "j \<in> dom (slots (objects env))" using 1 by (auto simp: domIff)
  next
    fix j assume "j \<in> dom (slots (objects env))"
    hence "slots (objects env) j \<noteq> None" by (simp add: domIff)
    then obtain q where "objects_index env q = Some j" using 3 by blast
    thus "j \<in> (\<lambda>p. the (objects_index env p)) ` dom (objects_index env)" by force
  qed
  ultimately have "bij_betw (\<lambda>p. the (objects_index env p)) (dom (objects_index env)) (dom (slots (objects env)))"
    unfolding bij_betw_def by blast
  thus ?thesis unfolding index_size_def sarray_size_def by (rule bij_betw_same_card)
qed



lemma free_object_unbound:
  "objects_index env p = None \<Longrightarrow> caller = thread_id env \<Longrightarrow> free_object w fuel fz caller env p fin = Inr env"
  by (simp add: free_object.simps)

lemma free_object_Inr_cases:
  assumes r: "free_object w fuel fz caller env p fin = Inr env'"
  shows "(objects_index env p = None \<and> env' = env)
       \<or> (\<exists>i h. objects_index env p = Some i \<and> \<not> fin \<and> env' = unlink_object env p i h fin)
       \<or> (\<exists>i h n. objects_index env p = Some i \<and> fin \<and> fuel = Suc n \<and>
            run_ops w n fz caller (fz (class_id h) p (p \<in> persistent_objects env) (unlink_object env p i h fin))
              (unlink_object env p i h fin) = Inr env')"
  using r unfolding free_object.simps [of w fuel fz caller env p fin]
  by (auto split: if_splits option.splits nat.splits)

lemma free_run_inv:
  "(registry_inv env \<longrightarrow> (\<forall>env'. free_object w fuel fz caller env p fin = Inr env' \<longrightarrow> registry_inv env'))"
  "(registry_inv env2 \<longrightarrow> (\<forall>env'. run_ops w2 fuel2 fz2 caller2 ops env2 = Inr env' \<longrightarrow> registry_inv env'))"
proof (induction w fuel fz caller env p fin and w2 fuel2 fz2 caller2 ops env2 rule: free_object_run_ops.induct)
  case (1 w fuel fz caller env p_pointer p_finalize)
  show ?case
  proof (intro impI allI)
    fix env' assume inv: "registry_inv env" and r: "free_object w fuel fz caller env p_pointer p_finalize = Inr env'"
    show "registry_inv env'"
    proof (cases "objects_index env p_pointer")
      case None
      thus ?thesis using r inv by (simp add: free_object.simps split: if_splits)
    next
      case (Some i)
      from r Some obtain h ci where h: "slots (objects env) i = Some h" "caller = thread_id env"
         "pointer h = p_pointer" "\<not> (\<not> p_finalize \<and> IsEmpty (ref h))"
         "native_classes env (class_id h) = Some ci"
        unfolding free_object.simps [of w fuel fz caller env p_pointer p_finalize]
        by (auto split: if_splits option.splits)
      have u: "registry_inv (unlink_object env p_pointer i h p_finalize)"
        using inv Some by (rule unlink_object_inv)
      show ?thesis
      proof (cases p_finalize)
        case False
        thus ?thesis using r Some h u unfolding free_object.simps [of w fuel fz caller env p_pointer p_finalize]
          by (simp split: if_splits)
      next
        case True
        with r Some h obtain n where n: "fuel = Suc n"
          unfolding free_object.simps [of w fuel fz caller env p_pointer p_finalize]
          by (cases fuel) auto
        have rr: "run_ops w n fz caller (fz (class_id h) p_pointer (p_pointer \<in> persistent_objects env)
                   (unlink_object env p_pointer i h p_finalize)) (unlink_object env p_pointer i h p_finalize) = Inr env'"
          using r Some h True n unfolding free_object.simps [of w fuel fz caller env p_pointer p_finalize] by simp
        have c: "\<not> caller \<noteq> thread_id env" using h by simp
        have e: "\<not> (\<not> p_finalize \<and> IsEmpty (ref h))" using True by simp
        from "1.IH"[OF c Some h(1) _ e h(5) True n] h(3) u rr
        show ?thesis by blast
      qed
    qed
  qed
next
  case (2 w fuel fz caller env)
  then show ?case by simp
next
  case (3 w fuel fz caller c p obj policy ops env)
  show ?case
  proof (intro impI allI)
    fix env' assume inv: "registry_inv env" and r: "run_ops w fuel fz caller (Bind c p obj policy # ops) env = Inr env'"
    then obtain i env1 where b: "bind_pointer caller env c p obj policy = Inr (i, env1)"
       and r1: "run_ops w fuel fz caller ops env1 = Inr env'"
      by (auto split: sum.splits)
    from bind_pointer_inv [OF inv b] "3.IH" [OF b refl] r1 show "registry_inv env'" by blast
  qed
next
  case (4 w fuel fz caller p is_inc ops env)
  show ?case
  proof (intro impI allI)
    fix env' assume inv: "registry_inv env" and r: "run_ops w fuel fz caller (Reference p is_inc # ops) env = Inr env'"
    then obtain x env1 where b: "reference_object w caller env p is_inc = Inr (x, env1)"
       and r1: "run_ops w fuel fz caller ops env1 = Inr env'"
      by (auto split: sum.splits)
    from reference_object_inv [OF inv b] "4.IH" [OF b refl] r1 show "registry_inv env'" by blast
  qed
next
  case (5 w fuel fz caller p finalize ops env)
  show ?case
  proof (intro impI allI)
    fix env' assume inv: "registry_inv env" and r: "run_ops w fuel fz caller (Free p finalize # ops) env = Inr env'"
    then obtain env1 where b: "free_object w fuel fz caller env p finalize = Inr env1"
       and r1: "run_ops w fuel fz caller ops env1 = Inr env'"
      by (auto split: sum.splits)
    from "5.IH"(1) inv b have "registry_inv env1" by blast
    with "5.IH"(2) [OF b] r1 show "registry_inv env'" by blast
  qed
qed


lemma run_ops_append:
  "run_ops w fuel fz caller (xs @ ys) env =
     (case run_ops w fuel fz caller xs env of Inl e \<Rightarrow> Inl e | Inr env1 \<Rightarrow> run_ops w fuel fz caller ys env1)"
proof (induction xs arbitrary: env)
  case Nil
  show ?case by simp
next
  case (Cons x xs)
  show ?case by (cases x) (auto split: sum.splits simp: Cons.IH)
qed

lemma unlink_object_thread: "thread_id (unlink_object env p i h fin) = thread_id env"
  by (simp add: unlink_object_def emit_def)

lemma reference_object_increment:
  assumes "caller = thread_id env" and "objects_index env p = Some i"
    and "slots (objects env) i = Some h"
    and "native_classes env (class_id h) = Some ci" and "type ci \<noteq> GodotPrimitive"
    and "ref_count h = 0 \<longrightarrow> \<not> IsEmpty (ref h)"
  shows "\<exists>env'. reference_object w caller env p True = Inr (False, env')
           \<and> slots (objects env') i =
               Some (h\<lparr>ref := (if ref_count h = 0 then ClearWeak (ref h) else ref h),
                       ref_count := Suc (ref_count h) mod 2 ^ w\<rparr>)
           \<and> trace env' = trace env @ (if ref_count h = 0 then [GlobalClearWeak p] else [])
           \<and> objects_index env' = objects_index env \<and> native_classes env' = native_classes env
           \<and> thread_id env' = thread_id env"
  using assms by (auto simp: reference_object_def sarray_set_def emit_def)

lemma increments_of_referenced:
  assumes "caller = thread_id env" and "objects_index env p = Some i"
    and "slots (objects env) i = Some h"
    and "native_classes env (class_id h) = Some ci" and "type ci \<noteq> GodotPrimitive"
    and "0 < ref_count h" and "ref_count h + n < 2 ^ w"
  shows "\<exists>env'. run_ops w fuel fz caller (replicate n (Reference p True)) env = Inr env'
           \<and> slots (objects env') i = Some (h\<lparr>ref_count := ref_count h + n\<rparr>)
           \<and> trace env' = trace env"
  using assms
proof (induction n arbitrary: env h)
  case 0
  then show ?case by simp
next
  case (Suc n)
  have m: "Suc (ref_count h) mod 2 ^ w = Suc (ref_count h)"
    using Suc.prems(7) by simp
  from reference_object_increment [OF Suc.prems(1-5), of w] Suc.prems(6) m
  obtain env1 where s: "reference_object w caller env p True = Inr (False, env1)"
     "slots (objects env1) i = Some (h\<lparr>ref_count := Suc (ref_count h)\<rparr>)"
     "trace env1 = trace env" "objects_index env1 = objects_index env"
     "native_classes env1 = native_classes env" "thread_id env1 = thread_id env"
    by auto
  have "\<exists>env'. run_ops w fuel fz caller (replicate n (Reference p True)) env1 = Inr env'
           \<and> slots (objects env') i = Some (h\<lparr>ref_count := Suc (ref_count h)\<rparr>\<lparr>ref_count := ref_count (h\<lparr>ref_count := Suc (ref_count h)\<rparr>) + n\<rparr>)
           \<and> trace env' = trace env1"
    by (rule Suc.IH) (use s Suc.prems in auto)
  then show ?case using s by auto
qed

subsection \<open>C1: the two tables have the same size, and no address is bound twice\<close>

text \<open>
  C1. Take any sequence of \<open>bind_pointer\<close>, \<open>reference_object\<close> (adding or removing a reference)
  and \<open>free_object\<close> calls made on a new Environment, with whatever the finalizers do in
  between, that runs to its end. After each of its operations (after the first \<open>k\<close>, for
  every \<open>k\<close>) \<open>objects_index\<close> and \<open>objects\<close> have the same size, and the log shows no address
  bound while it was bound: between two bindings of an address it was freed. A
  \<open>bind_pointer\<close> of an address that is bound fails a check, which ends the run.
\<close>

theorem registry_sizes_agree:
  assumes "run_ops w fuel fz caller ops (new_Environment tid classes) = Inr env"
  shows "\<exists>env_k. run_ops w fuel fz caller (take k ops) (new_Environment tid classes) = Inr env_k
           \<and> index_size (objects_index env_k) = sarray_size (objects env_k)
           \<and> no_double_bind {} (trace env_k)
           \<and> (\<forall>c p obj policy. objects_index env_k p \<noteq> None \<longrightarrow>
                 (\<exists>e. bind_pointer caller env_k c p obj policy = Inl e))"
proof -
  have "run_ops w fuel fz caller (take k ops @ drop k ops) (new_Environment tid classes) = Inr env"
    using assms by simp
  then obtain env_k where k: "run_ops w fuel fz caller (take k ops) (new_Environment tid classes) = Inr env_k"
    unfolding run_ops_append by (auto split: sum.splits)
  have "registry_inv env_k"
    using free_run_inv(2) new_Environment_inv k by blast
  hence "index_size (objects_index env_k) = sarray_size (objects env_k)" "no_double_bind {} (trace env_k)"
    by (simp_all add: registry_inv_sizes) (simp add: registry_inv_def)
  moreover have "\<exists>e. bind_pointer caller env_k c p obj policy = Inl e"
    if "objects_index env_k p \<noteq> None" for c p obj policy
    using that by (auto simp: bind_pointer_def split: option.splits)
  ultimately show ?thesis using k by blast
qed

lemma ex_run: "\<exists>env. run_ops 32 1 ex_finalizers 0 ex_ops (new_Environment 0 ex_classes) = Inr env"
  by (simp add: ex_ops_def ex_classes_def ex_finalizers_def new_Environment_def new_SArray_def
     bind_pointer_def reference_object_def free_object.simps unlink_object_def sarray_add_def
     sarray_set_def sarray_remove_def emit_def new_ObjectHandle_def Let_def)

theorem registry_sizes_agree_witness:
  "\<exists>env_5. run_ops 32 1 ex_finalizers 0 (take 5 ex_ops) (new_Environment 0 ex_classes) = Inr env_5
           \<and> index_size (objects_index env_5) = sarray_size (objects env_5)
           \<and> no_double_bind {} (trace env_5)"
proof -
  from ex_run obtain env where "run_ops 32 1 ex_finalizers 0 ex_ops (new_Environment 0 ex_classes) = Inr env"
    by blast
  from registry_sizes_agree [OF this, of 5] show ?thesis by blast
qed

subsection \<open>C2: \<open>free_object\<close> unlinks the pointer before the finalizer runs\<close>

text \<open>
  C2. For a bound pointer, \<open>free_object\<close> with finalization first takes the pointer out of
  \<open>objects_index\<close> and only then calls the class finalizer: the Environment the finalizer
  and its calls run on has no entry for the pointer. A call of \<open>free_object\<close> on the same
  pointer there, made by the finalizer or by anyone, with or without finalization, returns
  with the Environment as it found it. Without finalization the same holds of a second call
  after the first.
\<close>

theorem free_object_unlinks_first:
  assumes "caller = thread_id env" and "objects_index env p = Some i"
    and "slots (objects env) i = Some h" and "pointer h = p"
    and "native_classes env (class_id h) = Some ci"
  shows "objects_index (unlink_object env p i h True) p = None
       \<and> free_object w (Suc n) fz caller env p True =
           run_ops w n fz caller
             (fz (class_id h) p (p \<in> persistent_objects env) (unlink_object env p i h True))
             (unlink_object env p i h True)
       \<and> free_object w m fz caller (unlink_object env p i h True) p f = Inr (unlink_object env p i h True)
       \<and> run_ops w n fz caller (Free p f # rest) (unlink_object env p i h True) =
           run_ops w n fz caller rest (unlink_object env p i h True)
       \<and> (\<not> IsEmpty (ref h) \<longrightarrow>
            free_object w m fz caller env p False = Inr (unlink_object env p i h False)
            \<and> free_object w m' fz caller (unlink_object env p i h False) p f = Inr (unlink_object env p i h False))"
proof -
  have u: "\<And>fin. objects_index (unlink_object env p i h fin) p = None"
    by (simp add: unlink_object_eqs)
  have noop: "\<And>fin k. free_object w k fz caller (unlink_object env p i h fin) p f = Inr (unlink_object env p i h fin)"
    using u assms(1) by (simp add: free_object_unbound unlink_object_thread)
  have fin: "free_object w (Suc n) fz caller env p True =
           run_ops w n fz caller
             (fz (class_id h) p (p \<in> persistent_objects env) (unlink_object env p i h True))
             (unlink_object env p i h True)"
    using assms by (simp add: free_object.simps)
  have nofin: "\<not> IsEmpty (ref h) \<Longrightarrow> free_object w m fz caller env p False = Inr (unlink_object env p i h False)"
    using assms by (simp add: free_object.simps)
  show ?thesis using u noop fin nofin by simp
qed

lemma ex_bound_facts:
  "thread_id (ex_bound r n) = 0" "objects_index (ex_bound r n) 100 = Some 1"
  "slots (objects (ex_bound r n)) 1 = Some (ex_handle r n)" "pointer (ex_handle r n) = 100"
  "class_id (ex_handle r n) = 1" "ref (ex_handle r n) = r" "ref_count (ex_handle r n) = n"
  "native_classes (ex_bound r n) 1 = Some \<lparr>name = ''Node'', type = GodotObject\<rparr>"
  "persistent_objects (ex_bound r n) = {}" "trace (ex_bound r n) = []"
  by (simp_all add: ex_bound_def ex_handle_def new_Environment_def ex_classes_def)

lemmas ex_defs = ex_bound_def ex_handle_def new_Environment_def ex_classes_def

theorem free_object_unlinks_first_witness:
  "free_object 32 1 ex_finalizers 0 (ex_bound (Weak 7) 0) 100 True =
     Inr (unlink_object (ex_bound (Weak 7) 0) 100 1 (ex_handle (Weak 7) 0) True)
   \<and> objects_index (unlink_object (ex_bound (Weak 7) 0) 100 1 (ex_handle (Weak 7) 0) True) 100 = None
   \<and> free_object 32 1 ex_finalizers 0 (unlink_object (ex_bound (Weak 7) 0) 100 1 (ex_handle (Weak 7) 0) True) 100 True =
     Inr (unlink_object (ex_bound (Weak 7) 0) 100 1 (ex_handle (Weak 7) 0) True)
   \<and> free_object 32 1 ex_finalizers 0 (ex_bound (Weak 7) 0) 100 False =
     Inr (unlink_object (ex_bound (Weak 7) 0) 100 1 (ex_handle (Weak 7) 0) False)
   \<and> free_object 32 1 ex_finalizers 0 (unlink_object (ex_bound (Weak 7) 0) 100 1 (ex_handle (Weak 7) 0) False) 100 True =
     Inr (unlink_object (ex_bound (Weak 7) 0) 100 1 (ex_handle (Weak 7) 0) False)"
proof -
  have c: "native_classes (ex_bound (Weak 7) 0) (class_id (ex_handle (Weak 7) 0))
             = Some \<lparr>name = ''Node'', type = GodotObject\<rparr>"
    by (simp add: ex_defs)
  have t: "(0::nat) = thread_id (ex_bound (Weak 7) 0)" by (simp add: ex_defs)
  note w = free_object_unlinks_first [OF t ex_bound_facts(2) ex_bound_facts(3) ex_bound_facts(4) c,
      where n = 0 and fz = ex_finalizers and m = 1 and f = True and m' = 1]
  have ne: "\<not> IsEmpty (ref (ex_handle (Weak 7) 0))" by (simp add: ex_defs)
  note v = free_object_unlinks_first [OF t ex_bound_facts(2) ex_bound_facts(3) ex_bound_facts(4) c,
      where n = 0 and fz = ex_finalizers and m = 0 and f = False and rest = "[]"]
  have r: "run_ops 32 0 ex_finalizers 0 [Free 100 False]
             (unlink_object (ex_bound (Weak 7) 0) 100 1 (ex_handle (Weak 7) 0) True)
           = Inr (unlink_object (ex_bound (Weak 7) 0) 100 1 (ex_handle (Weak 7) 0) True)"
    using v by simp
  show ?thesis using w r ne by (simp add: ex_finalizers_def ex_defs)
qed

subsection \<open>C3: the handle becomes strong once\<close>

text \<open>
  C3. For a bound pointer whose handle has reference count 0, and a number \<open>n + 1\<close> of
  references that the counter can hold (\<open>n + 1 < 2 ^ w\<close>, for a counter of \<open>w\<close> bits), the
  \<open>n + 1\<close> calls \<open>reference_object(ptr, true)\<close> all return, leave the handle strong with
  count \<open>n + 1\<close>, and call \<open>ClearWeak\<close> once: on the first, which takes the count from 0
  to 1. Every further one only raises the count.
\<close>

theorem reference_object_strong_once:
  assumes "caller = thread_id env" and "objects_index env p = Some i"
    and "slots (objects env) i = Some h" and "ref_count h = 0" and "Get (ref h) = Some obj"
    and "native_classes env (class_id h) = Some ci" and "type ci \<noteq> GodotPrimitive"
    and "Suc n < 2 ^ w"
  shows "\<exists>env'. run_ops w fuel fz caller (replicate (Suc n) (Reference p True)) env = Inr env'
           \<and> slots (objects env') i = Some (h\<lparr>ref := Strong obj, ref_count := Suc n\<rparr>)
           \<and> trace env' = trace env @ [GlobalClearWeak p]"
proof -
  have e: "ref_count h = 0 \<longrightarrow> \<not> IsEmpty (ref h)" using assms(5) by (cases "ref h") auto
  have c: "ClearWeak (ref h) = Strong obj" using assms(5) by (cases "ref h") auto
  have "Suc 0 < (2::nat) ^ w" using assms(8) by linarith
  hence m: "Suc 0 mod 2 ^ w = Suc 0" by (rule mod_less)
  from reference_object_increment [OF assms(1-3) assms(6,7) e, of w] assms(4) c m
  obtain env1 where s: "reference_object w caller env p True = Inr (False, env1)"
     "slots (objects env1) i = Some (h\<lparr>ref := Strong obj, ref_count := Suc 0\<rparr>)"
     "trace env1 = trace env @ [GlobalClearWeak p]" "objects_index env1 = objects_index env"
     "native_classes env1 = native_classes env" "thread_id env1 = thread_id env"
    by auto
  have "\<exists>env'. run_ops w fuel fz caller (replicate n (Reference p True)) env1 = Inr env'
           \<and> slots (objects env') i = Some (h\<lparr>ref := Strong obj, ref_count := Suc 0\<rparr>\<lparr>ref_count := ref_count (h\<lparr>ref := Strong obj, ref_count := Suc 0\<rparr>) + n\<rparr>)
           \<and> trace env' = trace env1"
    by (rule increments_of_referenced) (use s assms in auto)
  then show ?thesis using s by auto
qed

theorem reference_object_strong_once_witness:
  "\<exists>env'. run_ops 32 0 ex_finalizers 0 (replicate (Suc 2) (Reference 100 True)) (ex_bound (Weak 7) 0) = Inr env'
           \<and> slots (objects env') 1 = Some ((ex_handle (Weak 7) 0)\<lparr>ref := Strong 7, ref_count := Suc 2\<rparr>)
           \<and> trace env' = trace (ex_bound (Weak 7) 0) @ [GlobalClearWeak 100]"
proof -
  have c: "native_classes (ex_bound (Weak 7) 0) (class_id (ex_handle (Weak 7) 0))
             = Some \<lparr>name = ''Node'', type = GodotObject\<rparr>"
    by (simp add: ex_defs)
  have t: "(0::nat) = thread_id (ex_bound (Weak 7) 0)" by (simp add: ex_defs)
  have z: "ref_count (ex_handle (Weak 7) 0) = 0" by (simp add: ex_defs)
  have g: "Get (ref (ex_handle (Weak 7) 0)) = Some 7" by (simp add: ex_defs)
  have y: "type \<lparr>name = ''Node'', type = GodotObject\<rparr> \<noteq> GodotPrimitive" by simp
  have b: "Suc 2 < (2::nat) ^ 32" by simp
  show ?thesis
    by (rule reference_object_strong_once [OF t ex_bound_facts(2) ex_bound_facts(3) z g c y b])
qed

subsection \<open>C4: at count 0 the handle is weak and nothing is finalized\<close>

text \<open>
  C4. For a bound pointer whose handle has reference count 1, \<open>reference_object(ptr, false)\<close>
  returns, leaves the count at 0 and the handle weak (\<open>SetWeak\<close> is its one call on the
  engine), and leaves the pointer bound. No call of \<open>reference_object\<close>, whatever its
  arguments, calls a class finalizer.
\<close>

theorem reference_object_weak_at_zero:
  assumes "caller = thread_id env" and "objects_index env p = Some i"
    and "slots (objects env) i = Some h" and "ref_count h = 1" and "Get (ref h) = Some obj"
    and "native_classes env (class_id h) = Some ci" and "type ci \<noteq> GodotPrimitive"
  shows "(\<exists>env'. reference_object w caller env p False = Inr (False, env')
           \<and> slots (objects env') i = Some (h\<lparr>ref := Weak obj, ref_count := 0\<rparr>)
           \<and> objects_index env' = objects_index env
           \<and> trace env' = trace env @ [GlobalSetWeak p])
       \<and> (\<forall>q is_inc r env'. reference_object w caller env q is_inc = Inr (r, env') \<longrightarrow>
            (\<exists>es. trace env' = trace env @ es \<and> (\<forall>c a b. CallFinalizer c a b \<notin> set es)))"
proof -
  have e: "\<not> IsEmpty (ref h)" and c: "SetWeak (ref h) = Weak obj"
    using assms(5) by (cases "ref h"; simp)+
  have 1: "\<exists>env'. reference_object w caller env p False = Inr (False, env')
           \<and> slots (objects env') i = Some (h\<lparr>ref := Weak obj, ref_count := 0\<rparr>)
           \<and> objects_index env' = objects_index env
           \<and> trace env' = trace env @ [GlobalSetWeak p]"
    using assms(1-4,6,7) e c by (auto simp: reference_object_def sarray_set_def emit_def)
  have 2: "\<exists>es. trace env' = trace env @ es \<and> (\<forall>c a b. CallFinalizer c a b \<notin> set es)"
    if "reference_object w caller env q is_inc = Inr (r, env')" for q is_inc r env'
    using that
    by (auto simp: reference_object_def sarray_set_def emit_def Let_def split: option.splits if_splits)
  show ?thesis using 1 2 by blast
qed

theorem reference_object_weak_at_zero_witness:
  "\<exists>env'. reference_object 32 0 (ex_bound (Strong 7) 1) 100 False = Inr (False, env')
           \<and> slots (objects env') 1 = Some ((ex_handle (Strong 7) 1)\<lparr>ref := Weak 7, ref_count := 0\<rparr>)
           \<and> objects_index env' = objects_index (ex_bound (Strong 7) 1)
           \<and> trace env' = trace (ex_bound (Strong 7) 1) @ [GlobalSetWeak 100]"
proof -
  have c: "native_classes (ex_bound (Strong 7) 1) (class_id (ex_handle (Strong 7) 1))
             = Some \<lparr>name = ''Node'', type = GodotObject\<rparr>"
    by (simp add: ex_defs)
  have t: "(0::nat) = thread_id (ex_bound (Strong 7) 1)" by (simp add: ex_defs)
  have z: "ref_count (ex_handle (Strong 7) 1) = 1" by (simp add: ex_defs)
  have g: "Get (ref (ex_handle (Strong 7) 1)) = Some 7" by (simp add: ex_defs)
  have y: "type \<lparr>name = ''Node'', type = GodotObject\<rparr> \<noteq> GodotPrimitive" by simp
  from reference_object_weak_at_zero [OF t ex_bound_facts(2) ex_bound_facts(3) z g c y]
  show ?thesis by blast
qed

subsection \<open>C10: what \<open>reference_object\<close> returns\<close>

text \<open>
  C10. Whenever \<open>reference_object\<close> returns, it returns true exactly when the pointer is not
  in \<open>objects_index\<close>. It does return true on an unbound pointer, and it does return false
  on a bound pointer whose handle passes the function's checks, when adding a reference and
  when removing one, also when that brings the count to 0.
\<close>

theorem reference_object_result:
  "(reference_object w caller env p is_inc = Inr (r, env') \<longrightarrow> r = (objects_index env p = None))
   \<and> (caller = thread_id env \<and> objects_index env p = None \<longrightarrow>
        reference_object w caller env p is_inc = Inr (True, emit [LogBadPointer p] env))
   \<and> (caller = thread_id env \<and> objects_index env p = Some i \<and> slots (objects env) i = Some h
        \<and> native_classes env (class_id h) = Some ci \<and> type ci \<noteq> GodotPrimitive
        \<and> \<not> IsEmpty (ref h) \<and> (is_inc \<or> 0 < ref_count h) \<longrightarrow>
        (\<exists>env''. reference_object w caller env p is_inc = Inr (False, env'')))"
  by (auto simp: reference_object_def Let_def split: option.splits if_splits)

theorem reference_object_result_witness:
  "(\<exists>env''. reference_object 32 0 (ex_bound (Strong 7) 1) 100 False = Inr (False, env''))
   \<and> (\<exists>env''. reference_object 32 0 (ex_bound (Strong 7) 1) 100 True = Inr (False, env''))
   \<and> reference_object 32 0 (ex_bound (Strong 7) 1) 200 False
       = Inr (True, emit [LogBadPointer 200] (ex_bound (Strong 7) 1))"
proof -
  have u: "objects_index (ex_bound (Strong 7) 1) 200 = None"
    by (simp add: ex_bound_def)
  have b: "0 = thread_id (ex_bound (Strong 7) 1) \<and> objects_index (ex_bound (Strong 7) 1) 100 = Some 1
        \<and> slots (objects (ex_bound (Strong 7) 1)) 1 = Some (ex_handle (Strong 7) 1)
        \<and> native_classes (ex_bound (Strong 7) 1) (class_id (ex_handle (Strong 7) 1))
           = Some \<lparr>name = ''Node'', type = GodotObject\<rparr>
        \<and> type \<lparr>name = ''Node'', type = GodotObject\<rparr> \<noteq> GodotPrimitive
        \<and> \<not> IsEmpty (ref (ex_handle (Strong 7) 1))"
    by (simp add: ex_defs)
  have d: "0 < ref_count (ex_handle (Strong 7) 1)" by (simp add: ex_defs)
  note w1 = reference_object_result [of 32 0 "ex_bound (Strong 7) 1" 100 False _ _ 1 "ex_handle (Strong 7) 1"
      "\<lparr>name = ''Node'', type = GodotObject\<rparr>"]
  note w2 = reference_object_result [of 32 0 "ex_bound (Strong 7) 1" 100 True _ _ 1 "ex_handle (Strong 7) 1"
      "\<lparr>name = ''Node'', type = GodotObject\<rparr>"]
  note w3 = reference_object_result [of 32 0 "ex_bound (Strong 7) 1" 200 False]
  have t: "0 = thread_id (ex_bound (Strong 7) 1)" using b by simp
  show ?thesis using w1 w2 w3 b d u t by blast
qed

section \<open>Properties of the call bridge\<close>

lemma convert_arguments_fails:
  assumes "j < length args" "conv (args ! j) = None" "\<forall>k<j. conv (args ! k) \<noteq> None"
  shows "convert_arguments conv args idx argv es =
           (None, es @ map LocalConstructed [idx..<Suc (idx + j)] @ map LocalDestroyed (rev [0..<Suc (idx + j)]))"
  using assms
proof (induction args arbitrary: j idx argv es)
  case Nil
  then show ?case by simp
next
  case (Cons a args)
  show ?case
  proof (cases j)
    case 0
    then show ?thesis using Cons.prems by simp
  next
    case (Suc j')
    have a: "conv a \<noteq> None" using Cons.prems(3) Suc by auto
    then obtain v where v: "conv a = Some v" by auto
    have 1: "j' < length args" "conv (args ! j') = None" using Cons.prems Suc by auto
    have 2: "\<forall>k<j'. conv (args ! k) \<noteq> None" using Cons.prems(3) Suc by auto
    have "[idx..<Suc (idx + j)] = idx # [Suc idx..<Suc (Suc idx + j')]"
      using Suc by (simp add: upt_conv_Cons)
    then show ?thesis using Cons.IH [OF 1 2, of "Suc idx" "argv @ [v]" "es @ [LocalConstructed idx]"] v Suc
      by simp
  qed
qed

lemma first_failure:
  assumes "a \<in> set args" "conv a = None"
  shows "\<exists>j<length args. conv (args ! j) = None \<and> (\<forall>k<j. conv (args ! k) \<noteq> None)"
proof -
  let ?P = "\<lambda>j. j < length args \<and> conv (args ! j) = None"
  from assms obtain i where "?P i" by (auto simp: in_set_conv_nth)
  hence "?P (LEAST j. ?P j)" by (rule LeastI)
  moreover have "\<forall>k<(LEAST j. ?P j). conv (args ! k) \<noteq> None"
  proof (intro allI impI)
    fix k assume k: "k < (LEAST j. ?P j)"
    hence "\<not> ?P k" by (rule not_less_Least)
    moreover have "k < length args" using k \<open>?P (LEAST j. ?P j)\<close> by simp
    ultimately show "conv (args ! k) \<noteq> None" by simp
  qed
  ultimately show ?thesis by blast
qed

lemma convert_arguments_succeeds:
  assumes "\<forall>a\<in>set args. conv a \<noteq> None"
  shows "convert_arguments conv args idx argv es =
           (Some (argv @ map (the \<circ> conv) args), es @ map LocalConstructed [idx..<idx + length args])"
  using assms
proof (induction args arbitrary: idx argv es)
  case Nil
  then show ?case by simp
next
  case (Cons a args)
  then obtain v where v: "conv a = Some v" by auto
  have "[idx..<idx + length (a # args)] = idx # [Suc idx..<Suc idx + length args]"
    using upt_conv_Cons [of idx "idx + length (a # args)"] by simp
  then show ?case using Cons.IH [of "Suc idx" "argv @ [v]" "es @ [LocalConstructed idx]"] Cons.prems v
    by simp
qed

subsection \<open>C5: an argument that cannot be converted\<close>

text \<open>
  C5, as the code has it. If the conversion of some argument fails then, with \<open>j\<close> the
  first such argument, \<open>_call\<close> has constructed \<open>argv[0]\<close> to \<open>argv[j]\<close> and destroyed them
  all, from \<open>argv[j]\<close> down to \<open>argv[0]\<close>; it has done nothing else (the function is not
  called, and the Environment is otherwise as it was); it returns the empty Variant and
  reports \<open>CALL_ERROR_INVALID_METHOD\<close>, the code it also reports for a script exception.
\<close>

theorem call_argument_failure:
  assumes "a \<in> set p_args" and "gd_var_to_js a = None"
  shows "\<exists>j<length p_args.
           call gd_var_to_js js_to_gd_var env p_func p_self p_args r_error =
             Inr (NIL, CALL_ERROR_INVALID_METHOD,
                  emit (map LocalConstructed [0..<Suc j] @ map LocalDestroyed (rev [0..<Suc j])) env)"
proof -
  from first_failure [of a p_args gd_var_to_js, OF assms]
  obtain j where j: "j < length p_args" "gd_var_to_js (p_args ! j) = None"
     "\<forall>k<j. gd_var_to_js (p_args ! k) \<noteq> None" by blast
  from convert_arguments_fails [OF j, of 0 "[]" "[]"]
  have "call gd_var_to_js js_to_gd_var env p_func p_self p_args r_error =
             Inr (NIL, CALL_ERROR_INVALID_METHOD,
                  emit (map LocalConstructed [0..<Suc j] @ map LocalDestroyed (rev [0..<Suc j])) env)"
    by (simp add: call_def)
  with j(1) show ?thesis by blast
qed

theorem call_argument_failure_witness:
  "\<exists>j<length [INTEGER 1, OBJECT 5, INTEGER 2].
     call ex_gd_var_to_js ex_js_to_gd_var (new_Environment 0 ex_classes) ex_throwing JSUndefined
          [INTEGER 1, OBJECT 5, INTEGER 2] CALL_OK =
       Inr (NIL, CALL_ERROR_INVALID_METHOD,
            emit (map LocalConstructed [0..<Suc j] @ map LocalDestroyed (rev [0..<Suc j]))
              (new_Environment 0 ex_classes))"
proof -
  have m: "OBJECT 5 \<in> set [INTEGER 1, OBJECT 5, INTEGER 2]" by simp
  have f: "ex_gd_var_to_js (OBJECT 5) = None" by simp
  show ?thesis
    by (rule call_argument_failure [where a = "OBJECT 5" and gd_var_to_js = ex_gd_var_to_js
          and p_args = "[INTEGER 1, OBJECT 5, INTEGER 2]", OF m f])
qed

text \<open>
  The claim as the specification states it has \<open>InvalidArgument\<close> reported: on the
  arguments \<open>1\<close>, an object that cannot be converted, and \<open>2\<close>, that is not so.
\<close>

theorem call_argument_failure_code:
  "\<not> (\<exists>v env'. call ex_gd_var_to_js ex_js_to_gd_var (new_Environment 0 ex_classes) ex_throwing
                    JSUndefined [INTEGER 1, OBJECT 5, INTEGER 2] CALL_OK
                  = Inr (v, CALL_ERROR_INVALID_ARGUMENT, env'))"
  by (simp add: call_def)

subsection \<open>C6: a script exception stops at the bridge\<close>

text \<open>
  C6. When all arguments convert and the function called throws, \<open>_call\<close> returns the
  empty Variant and reports \<open>CALL_ERROR_INVALID_METHOD\<close>; the exception has been read by
  the \<open>TryCatch\<close>, written to the log in its formatted form and again in the line of
  \<open>_call\<close>, and is no longer pending in the isolate.
\<close>

theorem call_exception_caught:
  assumes "\<forall>a\<in>set p_args. gd_var_to_js a \<noteq> None"
    and "p_func p_self (map (the \<circ> gd_var_to_js) p_args) = (rval, Some ex)"
  shows "\<exists>env'. call gd_var_to_js js_to_gd_var env p_func p_self p_args r_error =
             Inr (NIL, CALL_ERROR_INVALID_METHOD, env')
           \<and> exception_slot env' = None
           \<and> trace env' = trace env @ map LocalConstructed [0..<length p_args]
               @ [FunctionCall p_self (map (the \<circ> gd_var_to_js) p_args)]
               @ map LocalDestroyed [0..<length p_args]
               @ [LogQuickJSError (format_exception ex),
                  LogError (''exception thrown in function:'' @ [CHR 0x0A] @ exception_text ex)]"
  using convert_arguments_succeeds [OF assms(1), of 0 "[]" "[]"] assms(2)
  by (simp add: call_def raise_thrown_def has_caught_def emit_def get_exception_def get_message_def
        exception_text_def)

theorem call_exception_caught_witness:
  "\<exists>env'. call ex_gd_var_to_js ex_js_to_gd_var (new_Environment 0 ex_classes) ex_throwing JSUndefined
             [INTEGER 1] CALL_OK = Inr (NIL, CALL_ERROR_INVALID_METHOD, env')
           \<and> exception_slot env' = None
           \<and> trace env' = trace (new_Environment 0 ex_classes) @ map LocalConstructed [0..<length [INTEGER 1]]
               @ [FunctionCall JSUndefined (map (the \<circ> ex_gd_var_to_js) [INTEGER 1])]
               @ map LocalDestroyed [0..<length [INTEGER 1]]
               @ [LogQuickJSError (format_exception ex_exception),
                  LogError (''exception thrown in function:'' @ [CHR 0x0A] @ exception_text ex_exception)]"
proof -
  have c: "\<forall>a\<in>set [INTEGER 1]. ex_gd_var_to_js a \<noteq> None" by simp
  have t: "ex_throwing JSUndefined (map (the \<circ> ex_gd_var_to_js) [INTEGER 1]) = (None, Some ex_exception)"
    by (simp add: ex_throwing_def)
  show ?thesis
    by (rule call_exception_caught [where gd_var_to_js = ex_gd_var_to_js and p_func = ex_throwing
          and p_self = JSUndefined and p_args = "[INTEGER 1]", OF c t])
qed

subsection \<open>C7: a result that cannot be converted\<close>

text \<open>
  C7. When all arguments convert, the function returns a value without throwing, and the
  value cannot be converted, \<open>_call\<close> returns the empty Variant; it leaves \<open>r_error\<close> as
  the caller set it and writes nothing to the log exactly when the value is a promise, and
  otherwise reports \<open>CALL_ERROR_INVALID_METHOD\<close> and writes the failure to the log.
\<close>

theorem call_unconvertible_result:
  assumes "\<forall>a\<in>set p_args. gd_var_to_js a \<noteq> None"
    and "p_func p_self (map (the \<circ> gd_var_to_js) p_args) = (Some rval, None)"
    and "exception_slot env = None"
    and "js_to_gd_var rval = None"
  shows "\<exists>env'. call gd_var_to_js js_to_gd_var env p_func p_self p_args r_error =
             Inr (NIL, (if IsPromise rval then r_error else CALL_ERROR_INVALID_METHOD), env')
           \<and> trace env' = trace env @ map LocalConstructed [0..<length p_args]
               @ [FunctionCall p_self (map (the \<circ> gd_var_to_js) p_args)]
               @ map LocalDestroyed [0..<length p_args]
               @ (if IsPromise rval then [] else [LogError ''failed to translate returned value''])"
  using convert_arguments_succeeds [OF assms(1), of 0 "[]" "[]"] assms(2-4)
  by (simp add: call_def raise_thrown_def has_caught_def emit_def)

theorem call_unconvertible_result_witness:
  "(\<exists>env'. call ex_gd_var_to_js ex_js_to_gd_var (new_Environment 0 ex_classes) ex_async JSUndefined
             [INTEGER 1] CALL_OK = Inr (NIL, CALL_OK, env')
           \<and> trace env' = [LocalConstructed 0, FunctionCall JSUndefined [JSNumber 1], LocalDestroyed 0])
   \<and> (\<exists>env'. call ex_gd_var_to_js ex_js_to_gd_var (new_Environment 0 ex_classes) ex_symbolic JSUndefined
             [INTEGER 1] CALL_OK = Inr (NIL, CALL_ERROR_INVALID_METHOD, env')
           \<and> trace env' = [LocalConstructed 0, FunctionCall JSUndefined [JSNumber 1], LocalDestroyed 0,
                           LogError ''failed to translate returned value''])"
proof -
  have c: "\<forall>a\<in>set [INTEGER 1]. ex_gd_var_to_js a \<noteq> None" by simp
  have p: "ex_async JSUndefined (map (the \<circ> ex_gd_var_to_js) [INTEGER 1]) = (Some (JSPromise 3), None)"
    by (simp add: ex_async_def)
  have q: "ex_symbolic JSUndefined (map (the \<circ> ex_gd_var_to_js) [INTEGER 1]) = (Some (JSSymbol CDO), None)"
    by (simp add: ex_symbolic_def)
  have e: "exception_slot (new_Environment 0 ex_classes) = None" by (simp add: new_Environment_def)
  have n: "ex_js_to_gd_var (JSPromise 3) = None" "ex_js_to_gd_var (JSSymbol CDO) = None" by simp_all
  have t: "trace (new_Environment 0 ex_classes) = []" by (simp add: new_Environment_def)
  note w1 = call_unconvertible_result [where gd_var_to_js = ex_gd_var_to_js and p_func = ex_async
      and p_self = JSUndefined and p_args = "[INTEGER 1]" and js_to_gd_var = ex_js_to_gd_var
      and r_error = CALL_OK, OF c p e n(1)]
  note w2 = call_unconvertible_result [where gd_var_to_js = ex_gd_var_to_js and p_func = ex_symbolic
      and p_self = JSUndefined and p_args = "[INTEGER 1]" and js_to_gd_var = ex_js_to_gd_var
      and r_error = CALL_OK, OF c q e n(2)]
  from w1 w2 show ?thesis by (simp add: t)
qed

section \<open>Properties of module loading\<close>

lemma find_module_resolver_events:
  "find_module_resolver rs k i es = (r, es') \<Longrightarrow>
     \<exists>es2. es' = es @ es2 \<and> find_module_resolver rs k i [] = (r, es2) \<and> (\<forall>e\<in>set es2. \<not> is_load_call e)"
proof (induction rs arbitrary: k es r es')
  case Nil
  then show ?case by simp
next
  case (Cons a rs)
  show ?case
  proof (cases "get_source_info a i")
    case None
    with Cons.prems have "find_module_resolver rs (Suc k) i (es @ [ResolverGetSourceInfo k i]) = (r, es')" by simp
    from Cons.IH [OF this] obtain es2 where 1: "es' = (es @ [ResolverGetSourceInfo k i]) @ es2"
       "find_module_resolver rs (Suc k) i [] = (r, es2)" "\<forall>e\<in>set es2. \<not> is_load_call e" by blast
    obtain r3 es3 where 3: "find_module_resolver rs (Suc k) i [ResolverGetSourceInfo k i] = (r3, es3)"
      by (cases "find_module_resolver rs (Suc k) i [ResolverGetSourceInfo k i]") auto
    from Cons.IH [OF 3] 1(2) have "r3 = r" "es3 = [ResolverGetSourceInfo k i] @ es2" by auto
    with 1 3 None show ?thesis by auto
  next
    case (Some info)
    with Cons.prems show ?thesis by auto
  qed
qed

subsection \<open>C8: a module that is loaded is not loaded again\<close>

text \<open>
  C8. When the id asked for is itself the key of a loaded module of the cache,
  \<open>_load_module\<close> returns that module and does nothing else. When it is not, names no module
  loader, and the resolvers resolve it to the key of a loaded module, \<open>_load_module\<close>
  returns that module: the resolvers have been asked for the source of the id (the events
  \<open>es\<close>), which is how the id is resolved, but no loader and no resolver has loaded
  anything and the cache is as it was. Asked again, it returns the same module.
\<close>

theorem load_module_idempotent:
  "(existing_loaded env i \<longrightarrow> load_module util env p_parent_id i = Inr (Some i, env))
   \<and> (\<not> existing_loaded env i \<and> find_module_loader env i = None
        \<and> normalized_id util p_parent_id i = Some n
        \<and> find_module_resolver (module_resolvers env) 0 n [] = (Some (k, resolver, info), es)
        \<and> existing_loaded env (source_filepath info) \<longrightarrow>
          load_module util env p_parent_id i = Inr (Some (source_filepath info), emit es env)
        \<and> load_module util (emit es env) p_parent_id i = Inr (Some (source_filepath info), emit es (emit es env))
        \<and> module_cache (emit es env) = module_cache env
        \<and> (\<forall>e\<in>set es. \<not> is_load_call e))"
proof -
  have e: "\<And>es i. existing_loaded (emit es env) i = existing_loaded env i"
    by (simp add: existing_loaded_def emit_def)
  have f: "\<And>es i. find_module_loader (emit es env) i = find_module_loader env i"
    "\<And>es. module_resolvers (emit es env) = module_resolvers env"
    by (simp_all add: find_module_loader_def emit_def)
  have 1: "existing_loaded env i \<Longrightarrow> load_module util env p_parent_id i = Inr (Some i, env)"
    by (simp add: load_module_def)
  have 2: "load_module util env' p_parent_id i = Inr (Some (source_filepath info), emit es env')"
    if "\<not> existing_loaded env' i" "find_module_loader env' i = None"
       "normalized_id util p_parent_id i = Some n"
       "find_module_resolver (module_resolvers env') 0 n [] = (Some (k, resolver, info), es)"
       "existing_loaded env' (source_filepath info)" for env'
    using that by (simp add: load_module_def Let_def existing_loaded_def emit_def)
  have 3: "(\<forall>e\<in>set es. \<not> is_load_call e)"
    if "find_module_resolver (module_resolvers env) 0 n [] = (Some (k, resolver, info), es)"
    using find_module_resolver_events [OF that] by auto
  have 4: "module_cache (emit es env) = module_cache env" by (simp add: emit_def)
  show ?thesis using 1 2 [of env] 2 [of "emit es env"] 3 4 e f by auto
qed

lemma ex_modules_facts:
  "existing_loaded ex_modules ''res://a.js''" "\<not> existing_loaded ex_modules ''a''"
  "find_module_loader ex_modules ''a'' = None" "normalized_id ex_helpers [] ''a'' = Some ''a''"
  "find_module_resolver (module_resolvers ex_modules) 0 ''a'' []
     = (Some (0, ex_resolver, \<lparr>source_filepath = ''res://a.js''\<rparr>), [ResolverGetSourceInfo 0 ''a''])"
  by (simp_all add: ex_modules_def ex_helpers_def ex_resolver_def ex_module_def
       existing_loaded_def is_loaded_def find_module_loader_def normalized_id_def new_Environment_def)

theorem load_module_idempotent_witness:
  "load_module ex_helpers ex_modules [] ''res://a.js'' = Inr (Some ''res://a.js'', ex_modules)
   \<and> load_module ex_helpers ex_modules [] ''a''
       = Inr (Some ''res://a.js'', emit [ResolverGetSourceInfo 0 ''a''] ex_modules)
   \<and> load_module ex_helpers (emit [ResolverGetSourceInfo 0 ''a''] ex_modules) [] ''a''
       = Inr (Some ''res://a.js'',
              emit [ResolverGetSourceInfo 0 ''a''] (emit [ResolverGetSourceInfo 0 ''a''] ex_modules))"
proof -
  note w1 = load_module_idempotent [of ex_modules "''res://a.js''" ex_helpers "[]"]
  note w2 = load_module_idempotent [of ex_modules "''a''" ex_helpers "[]" "''a''" 0 ex_resolver
      "\<lparr>source_filepath = ''res://a.js''\<rparr>" "[ResolverGetSourceInfo 0 ''a'']"]
  have s: "source_filepath \<lparr>source_filepath = ''res://a.js''\<rparr> = ''res://a.js''" by simp
  show ?thesis using w1 w2 ex_modules_facts unfolding s by blast
qed

section \<open>Properties of cross-binding\<close>

lemma As_Object_None: "(As_Object v = None) = (\<not> IsObject v)"
  by (cases v) auto

lemma As_Object_Some: "As_Object v = Some obj \<Longrightarrow> IsObject v"
  by (cases v) auto

subsection \<open>C9: \<open>crossbind\<close> rebinds a bound object and binds an unbound one\<close>

text \<open>
  C9, as the code has it, for a call by the owning thread with a registered script class.
  On a host object that is bound, \<open>crossbind\<close> returns the id it is bound to; the one call
  it makes on the engine for it is \<open>SetPrototype\<close> on the script object of its handle,
  with the prototype of the class; it calls no constructor and leaves \<open>objects\<close> and
  \<open>objects_index\<close> as they are. On a host object that is not bound it calls the class as a
  constructor with the \<open>CrossBind\<close> symbol. It returns the empty id and binds nothing when
  the constructor throws, when what it returns is not an object, and also when the host
  object is reference counted and its \<open>init_ref\<close> fails. Otherwise it binds the address to
  the new object under a new id, with a strong reference and the reference count 1 (the
  External policy), and returns that id.
\<close>

theorem crossbind_cases:
  assumes "caller = thread_id env" and "script_classes env p_class_id = Some class_info"
  shows
   "(objects_index env (address p_this) = Some i \<and> i \<noteq> 0 \<and> slots (objects env) i = Some h
       \<and> Get (ref h) = Some inst
       \<and> get_prototype eng (js_class class_info) = Some prototype \<and> IsObject prototype \<longrightarrow>
       (\<exists>env' es. crossbind eng caller env p_this p_class_id = Inr (i, env')
          \<and> objects env' = objects env \<and> objects_index env' = objects_index env
          \<and> trace env' = trace env @ SetPrototype inst prototype # es
          \<and> (\<forall>c args. CallAsConstructor c args \<notin> set es)))
    \<and> (objects_index env (address p_this) = None \<and> \<not> IsNullOrUndefined (js_class class_info)
       \<and> exception_slot env = None
       \<and> construct eng (js_class class_info) [JSSymbol CrossBind] = (constructed_value, thrown) \<longrightarrow>
       (thrown \<noteq> None \<or> (\<exists>v. constructed_value = Some v \<and> \<not> IsObject v)
          \<or> (\<exists>v. constructed_value = Some v \<and> IsObject v \<and> is_ref_counted p_this \<and> \<not> init_ref p_this) \<longrightarrow>
          (\<exists>env'. crossbind eng caller env p_this p_class_id = Inr (0, env')
             \<and> objects env' = objects env \<and> objects_index env' = objects_index env))
       \<and> (thrown = None \<and> constructed_value = Some v \<and> As_Object v = Some obj
            \<and> \<not> (is_ref_counted p_this \<and> \<not> init_ref p_this)
            \<and> native_classes env (native_class_id class_info) = Some ci \<and> type ci \<noteq> GodotPrimitive \<longrightarrow>
          (\<exists>env'. crossbind eng caller env p_this p_class_id = Inr (next_id (objects env), env')
             \<and> objects_index env' = (objects_index env)(address p_this \<mapsto> next_id (objects env))
             \<and> slots (objects env') (next_id (objects env))
                  = Some \<lparr>class_id = native_class_id class_info, pointer = address p_this,
                          ref = Strong obj, ref_count = 1\<rparr>
             \<and> CallAsConstructor (js_class class_info) [JSSymbol CrossBind] \<in> set (trace env'))))"
proof -
  have A: "\<exists>env' es. crossbind eng caller env p_this p_class_id = Inr (i, env')
          \<and> objects env' = objects env \<and> objects_index env' = objects_index env
          \<and> trace env' = trace env @ SetPrototype inst prototype # es
          \<and> (\<forall>c args. CallAsConstructor c args \<notin> set es)"
    if "objects_index env (address p_this) = Some i" "i \<noteq> 0" "slots (objects env) i = Some h"
       "Get (ref h) = Some inst" "get_prototype eng (js_class class_info) = Some prototype"
       "IsObject prototype"
    using that assms
    by (cases "set_prototype eng inst prototype")
       (auto simp: crossbind_def get_object_id_def rebind_def try_get_object_def Let_def emit_def
          raise_thrown_def has_caught_def get_exception_def get_message_def split: option.splits)
  have B: "\<exists>env'. crossbind eng caller env p_this p_class_id = Inr (0, env')
             \<and> objects env' = objects env \<and> objects_index env' = objects_index env"
    if "objects_index env (address p_this) = None" "\<not> IsNullOrUndefined (js_class class_info)"
       "exception_slot env = None"
       "construct eng (js_class class_info) [JSSymbol CrossBind] = (constructed_value, thrown)"
       "thrown \<noteq> None \<or> (\<exists>v. constructed_value = Some v \<and> \<not> IsObject v)
          \<or> (\<exists>v. constructed_value = Some v \<and> IsObject v \<and> is_ref_counted p_this \<and> \<not> init_ref p_this)"
    using that assms
    by (auto simp: crossbind_def get_object_id_def Let_def emit_def bind_godot_object_def
          raise_thrown_def has_caught_def get_exception_def get_message_def As_Object_None
          split: option.splits dest: As_Object_Some)
  have C: "\<exists>env'. crossbind eng caller env p_this p_class_id = Inr (next_id (objects env), env')
             \<and> objects_index env' = (objects_index env)(address p_this \<mapsto> next_id (objects env))
             \<and> slots (objects env') (next_id (objects env))
                  = Some \<lparr>class_id = native_class_id class_info, pointer = address p_this,
                          ref = Strong obj, ref_count = 1\<rparr>
             \<and> CallAsConstructor (js_class class_info) [JSSymbol CrossBind] \<in> set (trace env')"
    if "objects_index env (address p_this) = None" "\<not> IsNullOrUndefined (js_class class_info)"
       "exception_slot env = None"
       "construct eng (js_class class_info) [JSSymbol CrossBind] = (constructed_value, thrown)"
       "thrown = None" "constructed_value = Some v" "As_Object v = Some obj"
       "\<not> (is_ref_counted p_this \<and> \<not> init_ref p_this)"
       "native_classes env (native_class_id class_info) = Some ci" "type ci \<noteq> GodotPrimitive"
    using that assms
    by (auto simp: crossbind_def get_object_id_def Let_def emit_def bind_godot_object_def
          raise_thrown_def has_caught_def bind_pointer_def sarray_add_def sarray_set_def
          new_ObjectHandle_def)
  show ?thesis using A B C by blast
qed

theorem crossbind_cases_witness:
  "(\<exists>env' es. crossbind ex_engine 0 (ex_scripted (ex_bound (Strong 7) 1)) ex_node 1 = Inr (1, env')
      \<and> objects env' = objects (ex_scripted (ex_bound (Strong 7) 1))
      \<and> objects_index env' = objects_index (ex_scripted (ex_bound (Strong 7) 1))
      \<and> trace env' = trace (ex_scripted (ex_bound (Strong 7) 1)) @ SetPrototype 7 (JSObject 51) # es
      \<and> (\<forall>c args. CallAsConstructor c args \<notin> set es))
   \<and> (\<exists>env'. crossbind ex_engine 0 (ex_scripted (new_Environment 0 ex_classes)) ex_node 1 = Inr (1, env')
      \<and> slots (objects env') 1 = Some \<lparr>class_id = 1, pointer = 100, ref = Strong 9, ref_count = 1\<rparr>)
   \<and> (\<exists>env'. crossbind ex_engine 0 (ex_scripted (new_Environment 0 ex_classes)) ex_dead 1 = Inr (0, env')
      \<and> objects_index env' = objects_index (ex_scripted (new_Environment 0 ex_classes)))"
proof -
  let ?b = "ex_scripted (ex_bound (Strong 7) 1)"
  let ?n = "ex_scripted (new_Environment 0 ex_classes)"
  have b: "0 = thread_id ?b" "script_classes ?b 1 = Some ex_script_class"
    "objects_index ?b (address ex_node) = Some 1" "(1::nat) \<noteq> 0"
    "slots (objects ?b) 1 = Some (ex_handle (Strong 7) 1)" "Get (ref (ex_handle (Strong 7) 1)) = Some 7"
    "get_prototype ex_engine (js_class ex_script_class) = Some (JSObject 51)" "IsObject (JSObject 51)"
    by (simp_all add: ex_scripted_def ex_defs ex_node_def ex_engine_def)
  have n: "0 = thread_id ?n" "script_classes ?n 1 = Some ex_script_class"
    "objects_index ?n (address ex_node) = None" "\<not> IsNullOrUndefined (js_class ex_script_class)"
    "exception_slot ?n = None"
    "construct ex_engine (js_class ex_script_class) [JSSymbol CrossBind] = (Some (JSObject 9), None)"
    "As_Object (JSObject 9) = Some 9" "\<not> (is_ref_counted ex_node \<and> \<not> init_ref ex_node)"
    "native_classes ?n (native_class_id ex_script_class) = Some \<lparr>name = ''Node'', type = GodotObject\<rparr>"
    "type \<lparr>name = ''Node'', type = GodotObject\<rparr> \<noteq> GodotPrimitive"
    "next_id (objects ?n) = 1" "native_class_id ex_script_class = 1" "address ex_node = 100"
    by (simp_all add: ex_scripted_def ex_defs ex_node_def ex_engine_def ex_script_class_def new_SArray_def)
  note w1 = crossbind_cases [OF b(1) b(2), where p_this = ex_node and i = 1 and h = "ex_handle (Strong 7) 1"
     and inst = 7 and eng = ex_engine and prototype = "JSObject 51"]
  note w2 = crossbind_cases [OF n(1) n(2), where p_this = ex_node and eng = ex_engine
     and constructed_value = "Some (JSObject 9)" and thrown = None and v = "JSObject 9" and obj = 9
     and ci = "\<lparr>name = ''Node'', type = GodotObject\<rparr>"]
  have 1: "\<exists>env' es. crossbind ex_engine 0 ?b ex_node 1 = Inr (1, env')
      \<and> objects env' = objects ?b \<and> objects_index env' = objects_index ?b
      \<and> trace env' = trace ?b @ SetPrototype 7 (JSObject 51) # es
      \<and> (\<forall>c args. CallAsConstructor c args \<notin> set es)"
    using w1 b by blast
  have 2: "\<exists>env'. crossbind ex_engine 0 ?n ex_node 1 = Inr (next_id (objects ?n), env')
      \<and> slots (objects env') (next_id (objects ?n)) = Some \<lparr>class_id = native_class_id ex_script_class, pointer = address ex_node, ref = Strong 9, ref_count = 1\<rparr>"
    using w2 n(3-10) by blast
  have d: "objects_index ?n (address ex_dead) = None"
    "IsObject (JSObject 9) \<and> is_ref_counted ex_dead \<and> \<not> init_ref ex_dead"
    by (simp_all add: ex_scripted_def ex_defs ex_dead_def)
  note w3 = crossbind_cases [OF n(1) n(2), where p_this = ex_dead and eng = ex_engine
     and constructed_value = "Some (JSObject 9)" and thrown = None]
  have 3: "\<exists>env'. crossbind ex_engine 0 ?n ex_dead 1 = Inr (0, env')
      \<and> objects_index env' = objects_index ?n"
    using w3 n(4-6) d by blast
  show ?thesis using 1 2 3 unfolding n(11) n(12) n(13) by blast
qed

text \<open>
  The claim as the specification states it has every unbound object bound unless the
  constructor throws or returns something that is not an object: for a reference counted
  object whose \<open>init_ref\<close> fails the constructor returns an object, and nothing is bound.
\<close>

theorem crossbind_dead_object:
  "construct ex_engine (js_class ex_script_class) [JSSymbol CrossBind] = (Some (JSObject 9), None)
   \<and> crossbind ex_engine 0 (ex_scripted (new_Environment 0 ex_classes)) ex_dead 1
       = Inr (0, emit [CallAsConstructor (JSFunction 50) [JSSymbol CrossBind], InitRef 100,
                       LogError ''can not bind a dead object'']
                   (ex_scripted (new_Environment 0 ex_classes)))
   \<and> objects_index
        (emit [CallAsConstructor (JSFunction 50) [JSSymbol CrossBind], InitRef 100,
               LogError ''can not bind a dead object'']
           (ex_scripted (new_Environment 0 ex_classes))) 100 = None"
  by (simp add: crossbind_def ex_scripted_def ex_engine_def ex_script_class_def ex_dead_def
       new_Environment_def get_object_id_def raise_thrown_def has_caught_def emit_def
       bind_godot_object_def)

end
